theory Spec2Isabelle
  imports Complex_Main "HOL-Library.AList" "HOL-Library.Log_Nat"
begin

section \<open>JavaScript values used by the staking code\<close>

text \<open>
  Amounts of gold, stakes, accumulated power, heights and rounds are JavaScript numbers
  that hold integers. They are modelled as \<open>int\<close>: addition and subtraction of
  integers are exact in a double as long as magnitudes stay below \<open>2^53\<close>, which is
  assumed throughout. The values that are not integers are modelled explicitly:
  \<open>NaN\<close> (it arises from \<open>undefined - n\<close> and from \<open>0 / 0\<close>) and the two
  infinities (division by zero). Quotients are not integers; they are doubles, modelled
  as the rational the double denotes, see \<open>fl\<close> below. Signed zeros are not
  distinguished.
\<close>

datatype 'a jsnum = Fin 'a | NaN | PInf | NInf

text \<open>Addition, negation and subtraction of numbers, as IEEE 754 defines them.\<close>

fun jsadd :: "int jsnum \<Rightarrow> int jsnum \<Rightarrow> int jsnum" where
  "jsadd (Fin a) (Fin b) = Fin (a + b)"
| "jsadd NaN y = NaN"
| "jsadd x NaN = NaN"
| "jsadd PInf NInf = NaN"
| "jsadd NInf PInf = NaN"
| "jsadd PInf y = PInf"
| "jsadd x PInf = PInf"
| "jsadd NInf y = NInf"
| "jsadd x NInf = NInf"

fun jsneg :: "int jsnum \<Rightarrow> int jsnum" where
  "jsneg (Fin a) = Fin (- a)"
| "jsneg NaN = NaN"
| "jsneg PInf = NInf"
| "jsneg NInf = PInf"

definition jssub :: "int jsnum \<Rightarrow> int jsnum \<Rightarrow> int jsnum" where
  "jssub x y = jsadd x (jsneg y)"

text \<open>The comparison \<open>x > y\<close>: false as soon as one side is \<open>NaN\<close>.\<close>

fun jsgt :: "('a::linorder) jsnum \<Rightarrow> 'a jsnum \<Rightarrow> bool" where
  "jsgt (Fin a) (Fin b) = (a > b)"
| "jsgt NaN y = False"
| "jsgt x NaN = False"
| "jsgt x PInf = False"
| "jsgt NInf y = False"
| "jsgt PInf y = True"
| "jsgt x NInf = True"

text \<open>
  \<open>m.get(k) || 0\<close>: the value stored, or \<open>0\<close> when there is none or when it is
  falsy (\<open>NaN\<close> and \<open>0\<close> are). An arithmetic operator converts \<open>undefined\<close> to
  \<open>NaN\<close>.
\<close>

fun orZero :: "int jsnum option \<Rightarrow> int jsnum" where
  "orZero None = Fin 0"
| "orZero (Some NaN) = Fin 0"
| "orZero (Some x) = x"

fun toNumber :: "int jsnum option \<Rightarrow> int jsnum" where
  "toNumber None = NaN"
| "toNumber (Some x) = x"

subsection \<open>Doubles\<close>

text \<open>
  A quotient or a product with a quotient is rounded to the nearest double, ties to
  even: \<open>fl x\<close> is the double nearest to the rational \<open>x\<close>, for \<open>x\<close> in the range of
  normal doubles (53 significant bits; overflow and subnormal numbers are not
  modelled). \<open>ilog2 x\<close> is the exponent of \<open>x > 0\<close>, that is
  \<open>2 powi (ilog2 x) \<le> x < 2 powi (ilog2 x + 1)\<close>.
\<close>

definition ilog2 :: "rat \<Rightarrow> int" where
  "ilog2 x = (let (a, b) = quotient_of x;
                  d = bitlen a - bitlen b
              in if x < 2 powi d then d - 1 else d)"

definition roundHalfEven :: "rat \<Rightarrow> int" where
  "roundHalfEven q = (let f = \<lfloor>q\<rfloor>; r = q - of_int f
                      in if r < 1 / 2 then f
                         else if r > 1 / 2 then f + 1
                         else if even f then f else f + 1)"

definition fl :: "rat \<Rightarrow> rat" where
  "fl x = (if x = 0 then 0
           else let e = ilog2 \<bar>x\<bar>; u = 2 powi (e - 52)
                in of_int (roundHalfEven (x / u)) * u)"

text \<open>
  \<open>k * x\<close> for an integer literal \<open>k\<close>, the quotient \<open>x / y\<close> of two numbers, the
  product \<open>x * p\<close> of a number and a double, and \<open>Math.floor\<close>.
\<close>

fun jstimes :: "int \<Rightarrow> int jsnum \<Rightarrow> int jsnum" where
  "jstimes k (Fin a) = Fin (k * a)"
| "jstimes k NaN = NaN"
| "jstimes k PInf = (if k = 0 then NaN else if k > 0 then PInf else NInf)"
| "jstimes k NInf = (if k = 0 then NaN else if k > 0 then NInf else PInf)"

fun jsdiv :: "int jsnum \<Rightarrow> int jsnum \<Rightarrow> rat jsnum" where
  "jsdiv (Fin a) (Fin b) =
     (if b = 0 then (if a = 0 then NaN else if a > 0 then PInf else NInf)
      else Fin (fl (of_int a / of_int b)))"
| "jsdiv NaN y = NaN"
| "jsdiv x NaN = NaN"
| "jsdiv (Fin a) y = Fin 0"
| "jsdiv PInf (Fin b) = (if b \<ge> 0 then PInf else NInf)"
| "jsdiv NInf (Fin b) = (if b \<ge> 0 then NInf else PInf)"
| "jsdiv x y = NaN"

fun jsmul :: "int jsnum \<Rightarrow> rat jsnum \<Rightarrow> rat jsnum" where
  "jsmul (Fin a) (Fin p) = Fin (fl (of_int a * p))"
| "jsmul NaN y = NaN"
| "jsmul x NaN = NaN"
| "jsmul (Fin a) PInf = (if a = 0 then NaN else if a > 0 then PInf else NInf)"
| "jsmul (Fin a) NInf = (if a = 0 then NaN else if a > 0 then NInf else PInf)"
| "jsmul PInf (Fin p) = (if p = 0 then NaN else if p > 0 then PInf else NInf)"
| "jsmul NInf (Fin p) = (if p = 0 then NaN else if p > 0 then NInf else PInf)"
| "jsmul PInf PInf = PInf"
| "jsmul PInf NInf = NInf"
| "jsmul NInf PInf = NInf"
| "jsmul NInf NInf = PInf"

fun jsfloor :: "rat jsnum \<Rightarrow> int jsnum" where
  "jsfloor (Fin p) = Fin \<lfloor>p\<rfloor>"
| "jsfloor NaN = NaN"
| "jsfloor PInf = PInf"
| "jsfloor NInf = NInf"

fun toDouble :: "int jsnum \<Rightarrow> rat jsnum" where
  "toDouble (Fin a) = Fin (of_int a)"
| "toDouble NaN = NaN"
| "toDouble PInf = PInf"
| "toDouble NInf = NInf"

type_synonym address = string
type_synonym blockid = string

section \<open>vote.js\<close>

text \<open>
  A message as it arrives from the network (a JSON object). The fields \<open>type\<close>,
  \<open>sig\<close> and \<open>block\<close> may be \<open>undefined\<close>; a vote has no \<open>block\<close>
  field and a proposal has no \<open>type\<close> field. Record fields carry a prefix, since
  votes, proposals and validators all have a \<open>height\<close> and a \<open>round\<close>.
\<close>

record message =
  m_from :: address
  m_height :: int
  m_round :: int
  m_type :: "string option"
  m_blockID :: blockid
  m_pubKey :: string
  m_sig :: "string option"
  m_block :: "string option"

record vote =
  v_from :: address
  v_height :: int
  v_round :: int
  v_type :: "string option"
  v_blockID :: blockid
  v_pubKey :: string
  v_sig :: "string option"

text \<open>
  The payload \<open>tx.data\<close> of a transaction is a tagged union on the string
  \<open>tx.data.type\<close>: the three types of stake-block.js, any other string, or no type.
\<close>

datatype txdata =
  STAKE int
| UNSTAKE int
| EVIDENCE address message message
| OtherType string
| NoType

record transaction =
  tx_from :: address
  tx_nonce :: int
  tx_pubKey :: string
  tx_outputs :: "(address \<times> int) list"
  tx_fee :: int
  tx_data :: "txdata option"
  tx_sig :: "string option"

text \<open>
  The strings that are hashed to obtain the id of a vote, of a proposal and of a
  transaction (the fields that \<open>JSON.stringify\<close> serialises).
\<close>

datatype idfields =
  VoteFields address int int "string option" blockid string
| ProposalFields address "string option" blockid int int string
| TxFields address int string "(address \<times> int) list" int "txdata option"

text \<open>
  The functions of \<open>utils\<close> (package spartan-gold, outside the repository) are
  parameters of the model: nothing is assumed about them. The type of hash values is
  a type variable.
\<close>

record 'h utils =
  hash :: "idfields \<Rightarrow> 'h"
  addressMatchesKey :: "address \<Rightarrow> string \<Rightarrow> bool"
  verifySignature :: "string \<Rightarrow> 'h \<Rightarrow> string \<Rightarrow> bool"
  sign :: "string \<Rightarrow> 'h \<Rightarrow> string"

text \<open>
  Modelled from the spec: the constants \<open>StakeBlockchain.COMMIT\<close> and
  \<open>StakeBlockchain.NIL\<close> are not defined in the sources at hand; the spec names the
  channel \<open>"COMMIT"\<close> and a distinguished sentinel for nil votes.
\<close>

definition COMMIT :: string where
  "COMMIT = ''COMMIT''"

definition NIL :: blockid where
  "NIL = ''NIL''"

text \<open>The constructor of \<open>Vote\<close> copies seven fields of its argument.\<close>

definition Vote :: "message \<Rightarrow> vote" where
  "Vote m = \<lparr> v_from = m_from m, v_height = m_height m, v_round = m_round m,
              v_type = m_type m, v_blockID = m_blockID m, v_pubKey = m_pubKey m,
              v_sig = m_sig m \<rparr>"

definition vote_id :: "'h utils \<Rightarrow> vote \<Rightarrow> 'h" where
  "vote_id u v =
     hash u (VoteFields (v_from v) (v_height v) (v_round v) (v_type v) (v_blockID v) (v_pubKey v))"

definition hasValidSignature :: "'h utils \<Rightarrow> vote \<Rightarrow> bool" where
  "hasValidSignature u v =
     (case v_sig v of
        None \<Rightarrow> False
      | Some s \<Rightarrow>
          if \<not> addressMatchesKey u (v_from v) (v_pubKey v) then False
          else verifySignature u (v_pubKey v) (vote_id u v) s)"

definition fresherThan :: "vote \<Rightarrow> vote \<Rightarrow> bool" where
  "fresherThan this otherVote =
     (if v_height this > v_height otherVote then True
      else if v_height this < v_height otherVote then False
      else v_round this > v_round otherVote)"

text \<open>
  Modelled from the spec: proposal.js is not among the sources. A proposal is
  \<open>{from, blockID, block, height, round, pubKey, sig}\<close>, its identity is the hash of
  its fields other than the signature, and its signature is valid when \<open>sig\<close>
  verifies against \<open>pubKey\<close> over the id and \<open>from\<close> is the address of \<open>pubKey\<close>.
\<close>

record proposal =
  p_from :: address
  p_block :: "string option"
  p_blockID :: blockid
  p_height :: int
  p_round :: int
  p_pubKey :: string
  p_sig :: "string option"

definition Proposal :: "message \<Rightarrow> proposal" where
  "Proposal m = \<lparr> p_from = m_from m, p_block = m_block m, p_blockID = m_blockID m,
                  p_height = m_height m, p_round = m_round m, p_pubKey = m_pubKey m,
                  p_sig = m_sig m \<rparr>"

definition proposal_id :: "'h utils \<Rightarrow> proposal \<Rightarrow> 'h" where
  "proposal_id u q =
     hash u (ProposalFields (p_from q) (p_block q) (p_blockID q) (p_height q) (p_round q) (p_pubKey q))"

definition proposalHasValidSignature :: "'h utils \<Rightarrow> proposal \<Rightarrow> bool" where
  "proposalHasValidSignature u q =
     (case p_sig q of
        None \<Rightarrow> False
      | Some s \<Rightarrow>
          if \<not> addressMatchesKey u (p_from q) (p_pubKey q) then False
          else verifySignature u (p_pubKey q) (proposal_id u q) s)"

section \<open>stake-block.js\<close>

text \<open>
  A JavaScript \<open>Map\<close> keeps its entries in insertion order and its keys distinct. It
  is modelled as an association list: \<open>get\<close> is \<^const>\<open>map_of\<close>, \<open>set\<close> is
  \<^const>\<open>AList.update\<close> (it overwrites in place or appends), \<open>delete\<close> is
  \<^const>\<open>AList.delete\<close> and \<open>forEach\<close> is \<^const>\<open>fold\<close>.

  The keys of \<open>unstakingEvents\<close> are the heights at which gold is released (numbers);
  \<open>punishCheater\<close> also calls \<open>delete\<close> on this map with an address (a string), so
  the type of keys has both. A block copies the maps of its parent but shares the
  queues (arrays) they hold; \<open>unstakeGold\<close> pushes only to the queue at the height
  of the block plus \<open>UNSTAKE_DELAY\<close>, which no ancestor holds, so a queue is a value
  here.
\<close>

datatype mapkey = HeightKey int | AddrKey address

type_synonym ledger = "(address \<times> int jsnum) list"

record block =
  chainLength :: int
  balances :: ledger
  stakeBalances :: ledger
  unstakingEvents :: "(mapkey \<times> (address \<times> int) list) list"
  accumPower :: ledger

definition UNSTAKE_DELAY :: int where
  "UNSTAKE_DELAY = 35"

definition handleUnstakingEvents :: "block \<Rightarrow> block" where
  "handleUnstakingEvents b =
     (case map_of (unstakingEvents b) (HeightKey (chainLength b)) of
        None \<Rightarrow> b
      | Some q \<Rightarrow>
          b\<lparr> stakeBalances :=
                fold (\<lambda>(clientID, amount) sb.
                        let totalStaked = map_of sb clientID
                        in AList.update clientID (jssub (toNumber totalStaked) (Fin amount)) sb)
                     q (stakeBalances b),
             unstakingEvents := AList.delete (HeightKey (chainLength b)) (unstakingEvents b) \<rparr>)"

text \<open>
  The constructor. Its first argument is the block that the constructor of the base
  class (\<open>Block\<close>, package spartan-gold) has initialised: that constructor sets
  \<open>chainLength\<close> and \<open>balances\<close>. The second argument is \<open>prevBlock\<close>.
\<close>

definition StakeBlock :: "block \<Rightarrow> block option \<Rightarrow> block" where
  "StakeBlock base prevBlock =
     handleUnstakingEvents
       (base\<lparr> stakeBalances := (case prevBlock of None \<Rightarrow> [] | Some p \<Rightarrow> stakeBalances p),
               unstakingEvents := (case prevBlock of None \<Rightarrow> [] | Some p \<Rightarrow> unstakingEvents p),
               accumPower := (case prevBlock of None \<Rightarrow> [] | Some p \<Rightarrow> accumPower p) \<rparr>)"

definition amountGoldStaked :: "block \<Rightarrow> address \<Rightarrow> int jsnum" where
  "amountGoldStaked b addr = orZero (map_of (stakeBalances b) addr)"

definition stakeGold :: "block \<Rightarrow> address \<Rightarrow> int \<Rightarrow> block" where
  "stakeGold b addr amountStaked =
     (let currentStake = amountGoldStaked b addr
      in b\<lparr> stakeBalances := AList.update addr (jsadd currentStake (Fin amountStaked)) (stakeBalances b) \<rparr>)"

definition unstakeGold :: "block \<Rightarrow> address \<Rightarrow> int \<Rightarrow> block" where
  "unstakeGold b addr amountUnstaked =
     (let unstakingRound = HeightKey (chainLength b + UNSTAKE_DELAY);
          q = (case map_of (unstakingEvents b) unstakingRound of None \<Rightarrow> [] | Some q' \<Rightarrow> q')
      in b\<lparr> unstakingEvents :=
               AList.update unstakingRound (q @ [(addr, amountUnstaked)]) (unstakingEvents b) \<rparr>)"

definition getTotalStake :: "block \<Rightarrow> int jsnum" where
  "getTotalStake b = fold (\<lambda>(addr, amountBonded) totalStake. jsadd totalStake amountBonded)
                          (stakeBalances b) (Fin 0)"



text \<open>
  \<open>balanceOf\<close> belongs to the base class \<open>Block\<close> (package spartan-gold):
  \<open>this.balances.get(addr) || 0\<close>.
\<close>

definition balanceOf :: "block \<Rightarrow> address \<Rightarrow> int jsnum" where
  "balanceOf b addr = orZero (map_of (balances b) addr)"

text \<open>
  The body of the conditional of \<open>punishCheater\<close>: the cheater is ejected and its
  stake is divided among the validators that remain.
\<close>

definition seize :: "block \<Rightarrow> address \<Rightarrow> block" where
  "seize b cheaterAddr =
     (let balance = balanceOf b cheaterAddr;
          stakeAmount = amountGoldStaked b cheaterAddr;
          b1 = b\<lparr> accumPower := AList.delete cheaterAddr (accumPower b),
                  stakeBalances := AList.delete cheaterAddr (stakeBalances b),
                  unstakingEvents := AList.delete (AddrKey cheaterAddr) (unstakingEvents b),
                  balances := AList.update cheaterAddr (jssub balance stakeAmount) (balances b) \<rparr>;
          totalBonded = getTotalStake b1
      in b1\<lparr> balances :=
                fold (\<lambda>(addr, amountStaked) bal.
                        let b' = orZero (map_of bal addr);
                            proportion = jsdiv amountStaked totalBonded;
                            share = jsfloor (jsmul stakeAmount proportion)
                        in AList.update addr (jsadd b' share) bal)
                     (stakeBalances b1) (balances b1) \<rparr>)"

text \<open>
  Both messages become proposals when the first one has a \<open>block\<close> field, votes
  otherwise. The call to \<open>client.log\<close> is not modelled.
\<close>

definition punishCheater :: "'h utils \<Rightarrow> block \<Rightarrow> message \<Rightarrow> message \<Rightarrow> block" where
  "punishCheater u b msg1 msg2 =
     (let (id1, id2, valid1, valid2) =
            (if m_block msg1 \<noteq> None
             then (proposal_id u (Proposal msg1), proposal_id u (Proposal msg2),
                   proposalHasValidSignature u (Proposal msg1),
                   proposalHasValidSignature u (Proposal msg2))
             else (vote_id u (Vote msg1), vote_id u (Vote msg2),
                   hasValidSignature u (Vote msg1), hasValidSignature u (Vote msg2)))
      in if id1 \<noteq> id2 \<and> m_from msg1 = m_from msg2 \<and>
            m_height msg1 = m_height msg2 \<and> m_round msg1 = m_round msg2 \<and>
            valid1 \<and> valid2
         then seize b (m_from msg1)
         else b)"

text \<open>
  \<open>addTransaction\<close>. The method of the base class is a parameter: it returns
  \<open>None\<close> when it rejects the transaction, and the balances it leaves otherwise (the
  base class knows nothing of the three maps of a stake block). The result is
  \<open>Inl\<close> when the method throws, and otherwise the value returned with the block.
\<close>

definition addTransaction ::
  "(transaction \<Rightarrow> block \<Rightarrow> ledger option) \<Rightarrow> 'h utils \<Rightarrow> transaction \<Rightarrow> block
     \<Rightarrow> string + (bool \<times> block)" where
  "addTransaction super u tx b =
     (case super tx b of
        None \<Rightarrow> Inr (False, b)
      | Some bal \<Rightarrow>
          (let b1 = b\<lparr> balances := bal \<rparr>
           in case tx_data tx of
                None \<Rightarrow> Inr (True, b1)
              | Some NoType \<Rightarrow> Inr (True, b1)
              | Some (STAKE amountStaked) \<Rightarrow> Inr (True, stakeGold b1 (tx_from tx) amountStaked)
              | Some (UNSTAKE amountToUnstake) \<Rightarrow>
                  Inr (True, unstakeGold b1 (tx_from tx) amountToUnstake)
              | Some (EVIDENCE byzantinePlayer msg1 msg2) \<Rightarrow>
                  Inr (True, punishCheater u b1 msg1 msg2)
              | Some (OtherType t) \<Rightarrow> Inl (''Unrecognized type: '' @ t)))"

section \<open>The validator and the client\<close>

text \<open>
  The fields of \<open>this\<close> that the modelled methods read or write, for a validator
  (stake-blockchain.js) and for a client (stake-mixin.js, mixed into both).
  \<open>broadcasts\<close> is the list of transactions handed to \<open>net.broadcast\<close> on the
  channel \<open>POST_TRANSACTION\<close>, oldest first. \<open>transactions\<close> is the set of
  transactions queued for the next block; \<open>hasAddTransaction\<close> tells whether
  \<open>this.addTransaction\<close> is defined (it is for a validator).
  \<open>superAvailableGold\<close> is the value of the getter \<open>availableGold\<close> of the base
  class (package spartan-gold). Calls to \<open>log\<close> are not modelled.
\<close>

record 'h validator =
  address :: address
  keyPair_public :: string
  keyPair_private :: string
  nonce :: int
  height :: int
  roundNumber :: int
  currentBlock :: block
  lastConfirmedBlock :: block
  roundAccumPower :: ledger
  superAvailableGold :: "int jsnum"
  pendingOutgoingTransactions :: "('h \<times> transaction) list"
  broadcasts :: "transaction list"
  transactions :: "transaction list"
  hasAddTransaction :: bool

definition isValid :: "'h utils \<Rightarrow> vote \<Rightarrow> 'h validator \<Rightarrow> bool" where
  "isValid u v validator =
     (if height validator > v_height v then False
      else if roundNumber validator > v_round v \<and> v_type v \<noteq> Some COMMIT then False
      else if \<not> hasValidSignature u v then False
      else True)"


text \<open>
  The id of a transaction and its signature belong to the class \<open>Transaction\<close> of
  spartan-gold: the id is the hash of the fields other than the signature, and
  \<open>tx.sign(privKey)\<close> stores \<open>utils.sign(privKey, tx.id)\<close>.
\<close>

definition tx_id :: "'h utils \<Rightarrow> transaction \<Rightarrow> 'h" where
  "tx_id u tx =
     hash u (TxFields (tx_from tx) (tx_nonce tx) (tx_pubKey tx) (tx_outputs tx) (tx_fee tx) (tx_data tx))"

definition tx_sign :: "'h utils \<Rightarrow> string \<Rightarrow> transaction \<Rightarrow> transaction" where
  "tx_sign u privKey tx = tx\<lparr> tx_sig := Some (sign u privKey (tx_id u tx)) \<rparr>"

text \<open>
  The tail that the three methods posting a transaction share: the transaction is
  signed, stored in \<open>pendingOutgoingTransactions\<close>, the nonce is incremented, the
  transaction is broadcast and, when \<open>toPool\<close> holds, queued for the next block.
\<close>

definition post :: "'h utils \<Rightarrow> 'h validator \<Rightarrow> transaction \<Rightarrow> bool \<Rightarrow> transaction \<times> 'h validator" where
  "post u this tx0 toPool =
     (let tx = tx_sign u (keyPair_private this) tx0
      in (tx, this\<lparr> pendingOutgoingTransactions :=
                       AList.update (tx_id u tx) tx (pendingOutgoingTransactions this),
                     nonce := nonce this + 1,
                     broadcasts := broadcasts this @ [tx],
                     transactions := (if toPool then transactions this @ [tx]
                                      else transactions this) \<rparr>))"



text \<open>
  A ballot box is a JavaScript object whose keys are the addresses of the voters: an
  association list in the order of insertion. Addresses and block ids are hashes: they
  are neither integer-like strings (which an object enumerates first) nor names of
  properties that every object inherits. \<open>verifyAndVote\<close> returns the validator
  (a posted evidence transaction changes it) and the ballot box.
\<close>

type_synonym ballotBox = "(address \<times> vote) list"


text \<open>
  Modelled from the spec: \<open>Vote.isStale(height, round)\<close> is called by
  \<open>countVotes\<close> and is not among the sources. The spec: a vote is stale if its
  height is below the height of the engine, or its round is below the round of the
  engine and its phase is not Commit.
\<close>

definition isStale :: "vote \<Rightarrow> int \<Rightarrow> int \<Rightarrow> bool" where
  "isStale v h r = (v_height v < h \<or> (v_round v < r \<and> v_type v \<noteq> Some COMMIT))"

text \<open>
  \<open>countVotes\<close>, with the staleness test as a parameter. The loop carries
  \<open>candidateBlocks\<close> (an object whose keys are block ids) and \<open>winningBlockID\<close>
  (\<open>None\<close> is \<open>undefined\<close>).
\<close>

definition countVotes ::
  "(vote \<Rightarrow> int \<Rightarrow> int \<Rightarrow> bool) \<Rightarrow> 'h validator \<Rightarrow> ballotBox \<Rightarrow> blockid option" where
  "countVotes stale this ballotBox =
     (let totalStake = getTotalStake (currentBlock this);
          votesNeeded = jsdiv (jstimes 2 totalStake) (Fin 3)
      in snd (fold (\<lambda>(voterAddr, vote) (candidateBlocks, winningBlockID).
                      let stake = amountGoldStaked (currentBlock this) voterAddr
                      in if stale vote (height this) (roundNumber this)
                         then (candidateBlocks, winningBlockID)
                         else let blockID = v_blockID vote;
                                  currentVotes = jsadd (orZero (map_of candidateBlocks blockID)) stake;
                                  candidateBlocks' = AList.update blockID currentVotes candidateBlocks
                              in if jsgt (toDouble currentVotes) votesNeeded
                                 then (candidateBlocks',
                                       Some (if blockID = NIL then NIL else v_blockID vote))
                                 else (candidateBlocks', winningBlockID))
                   ballotBox ([], None)))"

section \<open>stake-mixin.js\<close>

text \<open>
  The getter \<open>availableGold\<close> of a validator and of a stake client. The two methods
  below take the fee as an argument (its default is a constant of the base
  blockchain); a thrown error is \<open>Inl\<close> with the two numbers of its message.
\<close>

definition availableGold :: "'h validator \<Rightarrow> int jsnum" where
  "availableGold this =
     jssub (superAvailableGold this) (amountGoldStaked (lastConfirmedBlock this) (address this))"

datatype error = Requested int "int jsnum"

definition postStakingTransaction ::
  "'h utils \<Rightarrow> 'h validator \<Rightarrow> int \<Rightarrow> int \<Rightarrow> error + transaction \<times> 'h validator" where
  "postStakingTransaction u this stakeAmount fee =
     (let totalPayments = stakeAmount + fee
      in if jsgt (Fin totalPayments) (availableGold this)
         then Inl (Requested totalPayments (availableGold this))
         else Inr (post u this
                     \<lparr> tx_from = address this, tx_nonce = nonce this,
                       tx_pubKey = keyPair_public this, tx_outputs = [], tx_fee = fee,
                       tx_data = Some (STAKE stakeAmount), tx_sig = None \<rparr>
                     (hasAddTransaction this)))"

definition postUnstakingTransaction ::
  "'h utils \<Rightarrow> 'h validator \<Rightarrow> int \<Rightarrow> int \<Rightarrow> error + transaction \<times> 'h validator" where
  "postUnstakingTransaction u this amountToUnstake fee =
     (if jsgt (Fin fee) (availableGold this)
      then Inl (Requested fee (availableGold this))
      else Inr (post u this
                  \<lparr> tx_from = address this, tx_nonce = nonce this,
                    tx_pubKey = keyPair_public this, tx_outputs = [], tx_fee = fee,
                    tx_data = Some (UNSTAKE amountToUnstake), tx_sig = None \<rparr>
                  (hasAddTransaction this)))"

section \<open>Ledgers of integers\<close>

text \<open>
  The data model of the spec has integers in every ledger. \<open>finiteLedger\<close> says so of
  an association list, and \<open>ledgerSum\<close> is then the sum of its values.
\<close>

fun isFinite :: "'a jsnum \<Rightarrow> bool" where
  "isFinite (Fin a) = True"
| "isFinite x = False"

fun intval :: "int jsnum \<Rightarrow> int" where
  "intval (Fin a) = a"
| "intval x = 0"

definition finiteLedger :: "ledger \<Rightarrow> bool" where
  "finiteLedger m = list_all (\<lambda>(a, v). isFinite v) m"

definition ledgerSum :: "ledger \<Rightarrow> int" where
  "ledgerSum m = sum_list (map (\<lambda>(a, v). intval v) m)"



text \<open>A block and a validator for the examples: two validators, \<open>A\<close> and \<open>B\<close>.\<close>

definition block0 :: block where
  "block0 = \<lparr> chainLength = 5,
              balances = [(''A'', Fin 1000), (''B'', Fin 1000)],
              stakeBalances = [(''A'', Fin 100), (''B'', Fin 200)],
              unstakingEvents = [],
              accumPower = [(''A'', Fin 100), (''B'', Fin 200)] \<rparr>"

definition validator0 :: "idfields validator" where
  "validator0 = \<lparr> address = ''A'', keyPair_public = ''pubA'', keyPair_private = ''privA'',
                  nonce = 0, height = 5, roundNumber = 1,
                  currentBlock = block0, lastConfirmedBlock = block0,
                  roundAccumPower = [(''A'', Fin 100), (''B'', Fin 200)],
                  superAvailableGold = Fin 1000,
                  pendingOutgoingTransactions = [], broadcasts = [], transactions = [],
                  hasAddTransaction = True \<rparr>"

text \<open>
  The gold that a matured queue of unstaking events releases to the address \<open>a\<close>,
  and the step of the loop of \<open>handleUnstakingEvents\<close>.
\<close>

definition released :: "(address \<times> int) list \<Rightarrow> address \<Rightarrow> int" where
  "released q a = sum_list (map snd (filter (\<lambda>(clientID, amount). clientID = a) q))"

abbreviation releaseStep :: "address \<times> int \<Rightarrow> ledger \<Rightarrow> ledger" where
  "releaseStep \<equiv> (\<lambda>(clientID, amount) sb.
      AList.update clientID (jssub (toNumber (map_of sb clientID)) (Fin amount)) sb)"


text \<open>
  Examples. The functions of \<open>utils0\<close> stand for the cryptography: the hash is the
  identity (it is injective), the public key of the address \<open>a\<close> is \<open>pub\<close> followed
  by \<open>a\<close>, and a signature is valid when it is \<open>signed\<close> followed by the public key.
  \<open>voteX\<close> and \<open>voteY\<close> are two prevotes of the validator \<open>C\<close> for two blocks at
  the same height and round.
\<close>

definition utils0 :: "idfields utils" where
  "utils0 = \<lparr> hash = (\<lambda>x. x), addressMatchesKey = (\<lambda>a k. k = ''pub'' @ a),
              verifySignature = (\<lambda>k i s. s = ''signed'' @ k), sign = (\<lambda>k i. ''signed'' @ k) \<rparr>"

definition voteX :: message where
  "voteX = \<lparr> m_from = ''C'', m_height = 5, m_round = 1, m_type = Some ''PREVOTE'',
             m_blockID = ''X'', m_pubKey = ''pubC'', m_sig = Some ''signedpubC'', m_block = None \<rparr>"

definition voteY :: message where
  "voteY = voteX\<lparr> m_blockID := ''Y'' \<rparr>"


text \<open>
  \<open>block1\<close>: three validators; \<open>C\<close> has staked 90 and has asked to unstake 5 at
  height 5, which is due at height 40. \<open>block2\<close>: a block at height 40 where the
  address \<open>C\<close> has a matured unstaking event and no stake.
\<close>

definition block1 :: block where
  "block1 = \<lparr> chainLength = 5,
              balances = [(''A'', Fin 1000), (''B'', Fin 1000), (''C'', Fin 1000)],
              stakeBalances = [(''A'', Fin 7), (''B'', Fin 3), (''C'', Fin 90)],
              unstakingEvents = [(HeightKey 40, [(''C'', 5)])],
              accumPower = [(''A'', Fin 7), (''B'', Fin 3), (''C'', Fin 90)] \<rparr>"

definition block2 :: block where
  "block2 = \<lparr> chainLength = 40,
              balances = [(''A'', Fin 1000), (''B'', Fin 1000), (''C'', Fin 1000)],
              stakeBalances = [(''A'', Fin 7), (''B'', Fin 3)],
              unstakingEvents = [(HeightKey 40, [(''C'', 5)])],
              accumPower = [(''A'', Fin 7), (''B'', Fin 3)] \<rparr>"

text \<open>
  An unstaking transaction of \<open>A\<close> for 50, and a method of the base class that
  accepts every transaction and charges nothing.
\<close>

definition txUnstake :: transaction where
  "txUnstake = \<lparr> tx_from = ''A'', tx_nonce = 0, tx_pubKey = ''pubA'', tx_outputs = [],
                 tx_fee = 0, tx_data = Some (UNSTAKE 50), tx_sig = Some ''signedpubA'' \<rparr>"

definition superAccept :: "transaction \<Rightarrow> block \<Rightarrow> ledger option" where
  "superAccept tx b = Some (balances b)"


text \<open>
  Tallying. \<open>stakeWeights\<close> says that a ledger holds non-negative integers, as the
  stakes of the data model are. \<open>stakeOf b a\<close> is the weight of the voter \<open>a\<close>,
  \<open>tally\<close> is the summed stake of the voters whose stored vote is not stale and names
  the block \<open>blockID\<close>, and \<open>threshold\<close> is \<open>floor(2 * totalStake / 3)\<close>.
  \<open>countStep\<close> is the body of the loop of \<open>countVotes\<close>, and
  \<open>exceedsVotesNeeded this n\<close> is its comparison \<open>currentVotes > votesNeeded\<close> for
  the count \<open>n\<close>.
\<close>

definition stakeWeights :: "ledger \<Rightarrow> bool" where
  "stakeWeights m = list_all (\<lambda>(a, v). case v of Fin n \<Rightarrow> 0 \<le> n | _ \<Rightarrow> False) m"

definition stakeOf :: "block \<Rightarrow> address \<Rightarrow> int" where
  "stakeOf b a = intval (amountGoldStaked b a)"

definition tally ::
  "(vote \<Rightarrow> int \<Rightarrow> int \<Rightarrow> bool) \<Rightarrow> 'h validator \<Rightarrow> ballotBox \<Rightarrow> blockid \<Rightarrow> int" where
  "tally stale this ballotBox blockID =
     sum_list (map (\<lambda>(voterAddr, vote). stakeOf (currentBlock this) voterAddr)
                   (filter (\<lambda>(voterAddr, vote).
                              \<not> stale vote (height this) (roundNumber this) \<and> v_blockID vote = blockID)
                           ballotBox))"

definition threshold :: "'h validator \<Rightarrow> int" where
  "threshold this = (2 * ledgerSum (stakeBalances (currentBlock this))) div 3"

abbreviation countStep ::
  "(vote \<Rightarrow> int \<Rightarrow> int \<Rightarrow> bool) \<Rightarrow> 'h validator \<Rightarrow> rat jsnum \<Rightarrow> address \<times> vote
     \<Rightarrow> (blockid \<times> int jsnum) list \<times> blockid option \<Rightarrow> (blockid \<times> int jsnum) list \<times> blockid option" where
  "countStep stale this votesNeeded \<equiv>
     (\<lambda>(voterAddr, vote) (candidateBlocks, winningBlockID).
        if stale vote (height this) (roundNumber this)
        then (candidateBlocks, winningBlockID)
        else if jsgt (toDouble (jsadd (orZero (map_of candidateBlocks (v_blockID vote)))
                                      (amountGoldStaked (currentBlock this) voterAddr)))
                     votesNeeded
             then (AList.update (v_blockID vote)
                     (jsadd (orZero (map_of candidateBlocks (v_blockID vote)))
                            (amountGoldStaked (currentBlock this) voterAddr)) candidateBlocks,
                   Some (v_blockID vote))
             else (AList.update (v_blockID vote)
                     (jsadd (orZero (map_of candidateBlocks (v_blockID vote)))
                            (amountGoldStaked (currentBlock this) voterAddr)) candidateBlocks,
                   winningBlockID))"


text \<open>Two prevotes for the block \<open>X\<close>, of the validators \<open>A\<close> and \<open>B\<close> of \<open>block0\<close>.\<close>

definition voteA :: vote where
  "voteA = \<lparr> v_from = ''A'', v_height = 5, v_round = 1, v_type = Some ''PREVOTE'',
             v_blockID = ''X'', v_pubKey = ''pubA'', v_sig = Some ''signedpubA'' \<rparr>"

definition voteB :: vote where
  "voteB = \<lparr> v_from = ''B'', v_height = 5, v_round = 1, v_type = Some ''PREVOTE'',
             v_blockID = ''X'', v_pubKey = ''pubB'', v_sig = Some ''signedpubB'' \<rparr>"

definition exceedsVotesNeeded :: "'h validator \<Rightarrow> int \<Rightarrow> bool" where
  "exceedsVotesNeeded this n =
     jsgt (toDouble (Fin n)) (jsdiv (jstimes 2 (getTotalStake (currentBlock this))) (Fin 3))"

text \<open>
  A block with a negative stake. In \<open>blockOver\<close>, the validator \<open>B\<close> has a stake of 5
  and a request to unstake 100 that matures at the height of the block (neither
  \<open>postUnstakingTransaction\<close> nor \<open>unstakeGold\<close> compares the amount with the stake);
  \<open>handleUnstakingEvents\<close>, which the constructor calls, leaves \<open>B\<close> with the stake
  \<open>5 - 100 = -95\<close>.
\<close>

definition blockOver :: block where
  "blockOver = \<lparr> chainLength = 5,
                 balances = [(''A'', Fin 1000), (''B'', Fin 1000), (''C'', Fin 1000)],
                 stakeBalances = [(''A'', Fin 100), (''B'', Fin 5), (''C'', Fin 50)],
                 unstakingEvents = [(HeightKey 5, [(''B'', 100)])],
                 accumPower = [(''A'', Fin 100), (''B'', Fin 5), (''C'', Fin 50)] \<rparr>"

definition blockNeg :: block where
  "blockNeg = handleUnstakingEvents blockOver"

definition validatorNeg :: "idfields validator" where
  "validatorNeg = validator0\<lparr> currentBlock := blockNeg \<rparr>"

section \<open>Validity of votes\<close>

lemma hasValidSignature_iff:
  "hasValidSignature u v =
     (\<exists>s. v_sig v = Some s \<and> addressMatchesKey u (v_from v) (v_pubKey v)
          \<and> verifySignature u (v_pubKey v) (vote_id u v) s)"
  by (cases "v_sig v") (simp_all add: hasValidSignature_def)

text \<open>
  Claim C6. \<open>Vote.isValid(validator)\<close> returns false exactly when the height of the
  vote is below the height of the validator, or its round is below the round of the
  validator and its type is not COMMIT, or \<open>hasValidSignature()\<close> fails; the
  signature check fails exactly when the signature is missing, or the sender's address
  does not match the public key, or the signature does not verify against the public
  key over the id of the vote. In every other case \<open>isValid\<close> returns true.
\<close>

theorem isValid_false_iff:
  "(isValid u v validator = False) =
     (v_height v < height validator
      \<or> (v_round v < roundNumber validator \<and> v_type v \<noteq> Some COMMIT)
      \<or> (v_sig v = None
          \<or> (\<exists>s. v_sig v = Some s \<and>
                (addressMatchesKey u (v_from v) (v_pubKey v) = False
                 \<or> verifySignature u (v_pubKey v) (vote_id u v) s = False))))"
  by (cases "v_sig v") (auto simp add: isValid_def hasValidSignature_def)

section \<open>Accumulated power\<close>

lemma isFinite_iff: "isFinite v = (\<exists>n. v = Fin n)"
  by (cases v) simp_all








lemma fold_total_finite:
  "finiteLedger stakes \<Longrightarrow>
   fold (\<lambda>(addr, amountBonded) totalStake. jsadd totalStake amountBonded) stakes (Fin t) = Fin (t + ledgerSum stakes)"
  by (induction stakes arbitrary: t) (auto simp: finiteLedger_def ledgerSum_def isFinite_iff)





lemma getTotalStake_finite:
  "finiteLedger (stakeBalances b) \<Longrightarrow> getTotalStake b = Fin (ledgerSum (stakeBalances b))"
  using fold_total_finite[of "stakeBalances b" 0] by (simp add: getTotalStake_def)





section \<open>Unstaking\<close>

lemma fold_release_Some:
  "map_of sb a = Some (Fin s) \<Longrightarrow>
   map_of (fold releaseStep q sb) a = Some (Fin (s - released q a))"
proof (induction q arbitrary: sb s)
  case Nil
  then show ?case by (simp add: released_def)
next
  case (Cons e q)
  obtain c amt where e: "e = (c, amt)" by (cases e)
  show ?case
  proof (cases "c = a")
    case True
    have "map_of (releaseStep e sb) a = Some (Fin (s - amt))"
      using Cons.prems True by (simp add: e update_conv' jssub_def)
    from Cons.IH[OF this] show ?thesis
      using True by (simp add: e released_def algebra_simps)
  next
    case False
    have "map_of (releaseStep e sb) a = Some (Fin s)"
      using Cons.prems False by (simp add: e update_conv')
    from Cons.IH[OF this] show ?thesis
      using False by (simp add: e released_def)
  qed
qed

lemma fold_release_other:
  "a \<notin> fst ` set q \<Longrightarrow> map_of (fold releaseStep q sb) a = map_of sb a"
  by (induction q arbitrary: sb) (auto simp: update_conv')

lemma handleUnstakingEvents_None:
  "map_of (unstakingEvents b) (HeightKey (chainLength b)) = None \<Longrightarrow> handleUnstakingEvents b = b"
  by (simp add: handleUnstakingEvents_def)

lemma handleUnstakingEvents_Some:
  "map_of (unstakingEvents b) (HeightKey (chainLength b)) = Some q \<Longrightarrow>
   handleUnstakingEvents b =
     b\<lparr> stakeBalances := fold releaseStep q (stakeBalances b),
        unstakingEvents := AList.delete (HeightKey (chainLength b)) (unstakingEvents b) \<rparr>"
  by (simp add: handleUnstakingEvents_def Let_def)

lemma handleUnstakingEvents_queue_other:
  "k \<noteq> HeightKey (chainLength b) \<Longrightarrow>
   map_of (unstakingEvents (handleUnstakingEvents b)) k = map_of (unstakingEvents b) k"
  by (cases "map_of (unstakingEvents b) (HeightKey (chainLength b))")
     (simp_all add: handleUnstakingEvents_None handleUnstakingEvents_Some delete_conv')

lemma handleUnstakingEvents_queue_own:
  "map_of (unstakingEvents (handleUnstakingEvents b)) (HeightKey (chainLength b)) = None"
  by (cases "map_of (unstakingEvents b) (HeightKey (chainLength b))")
     (simp_all add: handleUnstakingEvents_None handleUnstakingEvents_Some delete_conv')

lemma StakeBlock_Some:
  "StakeBlock base (Some prev) =
     handleUnstakingEvents (base\<lparr> stakeBalances := stakeBalances prev,
                                  unstakingEvents := unstakingEvents prev,
                                  accumPower := accumPower prev \<rparr>)"
  by (simp add: StakeBlock_def)

lemma unstakeGold_frame:
  "stakeBalances (unstakeGold b addr amount) = stakeBalances b
   \<and> accumPower (unstakeGold b addr amount) = accumPower b
   \<and> balances (unstakeGold b addr amount) = balances b
   \<and> chainLength (unstakeGold b addr amount) = chainLength b"
  by (simp add: unstakeGold_def Let_def)

lemma unstakeGold_queue:
  "map_of (unstakingEvents (unstakeGold b addr amount)) k =
     (if k = HeightKey (chainLength b + 35)
      then Some ((case map_of (unstakingEvents b) k of None \<Rightarrow> [] | Some q \<Rightarrow> q) @ [(addr, amount)])
      else map_of (unstakingEvents b) k)"
  by (simp add: unstakeGold_def Let_def update_conv' UNSTAKE_DELAY_def)

text \<open>
  Claim C7. \<open>UNSTAKE_DELAY\<close> is 35. In a block at height \<open>h\<close>, an UNSTAKE
  transaction of \<open>addr\<close> for \<open>amount\<close> that the base class accepts appends
  \<open>(addr, amount)\<close> to the queue of \<open>unstakingEvents\<close> at \<open>h + UNSTAKE_DELAY\<close>,
  leaves the other queues as they are and leaves \<open>stakeBalances\<close> unchanged. The
  construction of a block at height \<open>c\<close> from \<open>prev\<close> leaves every queue of another
  height as it is; without a queue at \<open>c\<close> it leaves \<open>stakeBalances\<close> unchanged; with
  a queue at \<open>c\<close> it deletes that queue and subtracts from every stake the amounts that
  the queue releases to its address.
\<close>

theorem unstake_delay:
  assumes "tx_data tx = Some (UNSTAKE amount)" and "tx_from tx = addr"
    and "super tx b = Some bal"
    and "chainLength base = c"
  shows "UNSTAKE_DELAY = 35
    \<and> (\<exists>b'. addTransaction super u tx b = Inr (True, b')
          \<and> stakeBalances b' = stakeBalances b
          \<and> map_of (unstakingEvents b') (HeightKey (chainLength b + UNSTAKE_DELAY)) =
              Some ((case map_of (unstakingEvents b) (HeightKey (chainLength b + UNSTAKE_DELAY)) of
                       None \<Rightarrow> [] | Some q \<Rightarrow> q) @ [(addr, amount)])
          \<and> (\<forall>k. k \<noteq> HeightKey (chainLength b + UNSTAKE_DELAY) \<longrightarrow>
                 map_of (unstakingEvents b') k = map_of (unstakingEvents b) k))
    \<and> (\<forall>k. k \<noteq> HeightKey c \<longrightarrow>
           map_of (unstakingEvents (StakeBlock base (Some prev))) k = map_of (unstakingEvents prev) k)
    \<and> (map_of (unstakingEvents prev) (HeightKey c) = None \<longrightarrow>
           stakeBalances (StakeBlock base (Some prev)) = stakeBalances prev)
    \<and> (\<forall>q. map_of (unstakingEvents prev) (HeightKey c) = Some q \<longrightarrow>
           map_of (unstakingEvents (StakeBlock base (Some prev))) (HeightKey c) = None
         \<and> (\<forall>a s. map_of (stakeBalances prev) a = Some (Fin s) \<longrightarrow>
                map_of (stakeBalances (StakeBlock base (Some prev))) a = Some (Fin (s - released q a))))"
proof -
  let ?b1 = "b\<lparr> balances := bal \<rparr>"
  let ?b' = "unstakeGold ?b1 addr amount"
  let ?n = "base\<lparr> stakeBalances := stakeBalances prev, unstakingEvents := unstakingEvents prev,
                  accumPower := accumPower prev \<rparr>"
  have cl: "chainLength ?n = c" using assms(4) by simp
  have add: "addTransaction super u tx b = Inr (True, ?b')"
    using assms(1-3) by (simp add: addTransaction_def)
  have A: "\<exists>b'. addTransaction super u tx b = Inr (True, b')
          \<and> stakeBalances b' = stakeBalances b
          \<and> map_of (unstakingEvents b') (HeightKey (chainLength b + UNSTAKE_DELAY)) =
              Some ((case map_of (unstakingEvents b) (HeightKey (chainLength b + UNSTAKE_DELAY)) of
                       None \<Rightarrow> [] | Some q \<Rightarrow> q) @ [(addr, amount)])
          \<and> (\<forall>k. k \<noteq> HeightKey (chainLength b + UNSTAKE_DELAY) \<longrightarrow>
                 map_of (unstakingEvents b') k = map_of (unstakingEvents b) k)"
    using add unstakeGold_frame[of ?b1 addr amount] unstakeGold_queue[of ?b1 addr amount]
    by (simp add: UNSTAKE_DELAY_def)
  have B: "\<forall>k. k \<noteq> HeightKey c \<longrightarrow>
           map_of (unstakingEvents (StakeBlock base (Some prev))) k = map_of (unstakingEvents prev) k"
    using handleUnstakingEvents_queue_other[of _ ?n] cl by (simp add: StakeBlock_Some)
  have C: "map_of (unstakingEvents prev) (HeightKey c) = None \<longrightarrow>
           stakeBalances (StakeBlock base (Some prev)) = stakeBalances prev"
    using handleUnstakingEvents_None[of ?n] cl by (simp add: StakeBlock_Some)
  have D: "map_of (unstakingEvents (StakeBlock base (Some prev))) (HeightKey c) = None
         \<and> (\<forall>a s. map_of (stakeBalances prev) a = Some (Fin s) \<longrightarrow>
                map_of (stakeBalances (StakeBlock base (Some prev))) a = Some (Fin (s - released q a)))"
    if q: "map_of (unstakingEvents prev) (HeightKey c) = Some q" for q
  proof -
    have "map_of (unstakingEvents ?n) (HeightKey (chainLength ?n)) = Some q"
      using q cl by simp
    from handleUnstakingEvents_Some[OF this] handleUnstakingEvents_queue_own[of ?n] cl
    show ?thesis
      by (simp add: StakeBlock_Some fold_release_Some)
  qed
  from A B C D show ?thesis by (simp add: UNSTAKE_DELAY_def)
qed


theorem unstake_delay_witness:
  "addTransaction superAccept utils0 txUnstake block0 =
     Inr (True, block0\<lparr> unstakingEvents := [(HeightKey 40, [(''A'', 50)])] \<rparr>)
   \<and> map_of (unstakingEvents
        (StakeBlock (block0\<lparr> chainLength := 6 \<rparr>)
           (Some (block0\<lparr> unstakingEvents := [(HeightKey 40, [(''A'', 50)])] \<rparr>)))) (HeightKey 40)
       = Some [(''A'', 50)]
   \<and> stakeBalances
        (StakeBlock (block0\<lparr> chainLength := 6 \<rparr>)
           (Some (block0\<lparr> unstakingEvents := [(HeightKey 40, [(''A'', 50)])] \<rparr>)))
       = [(''A'', Fin 100), (''B'', Fin 200)]
   \<and> map_of (unstakingEvents
        (StakeBlock (block0\<lparr> chainLength := 40 \<rparr>)
           (Some (block0\<lparr> unstakingEvents := [(HeightKey 40, [(''A'', 50)])] \<rparr>)))) (HeightKey 40)
       = None
   \<and> map_of (stakeBalances
        (StakeBlock (block0\<lparr> chainLength := 40 \<rparr>)
           (Some (block0\<lparr> unstakingEvents := [(HeightKey 40, [(''A'', 50)])] \<rparr>)))) ''A''
       = Some (Fin 50)"
proof -
  let ?prev = "block0\<lparr> unstakingEvents := [(HeightKey 40, [(''A'', 50)])] \<rparr>"
  have h1: "tx_data txUnstake = Some (UNSTAKE 50)" and h2: "tx_from txUnstake = ''A''"
    by (simp_all add: txUnstake_def)
  have h3: "superAccept txUnstake block0 = Some (balances block0)"
    by (simp add: superAccept_def)
  have c6: "chainLength (block0\<lparr> chainLength := 6 \<rparr>) = 6"
    and c40: "chainLength (block0\<lparr> chainLength := 40 \<rparr>) = 40"
    by simp_all
  note early = unstake_delay[where super = superAccept and tx = txUnstake and b = block0
      and base = "block0\<lparr> chainLength := 6 \<rparr>" and u = utils0 and prev = ?prev,
      OF h1 h2 h3 c6]
  note due = unstake_delay[where super = superAccept and tx = txUnstake and b = block0
      and base = "block0\<lparr> chainLength := 40 \<rparr>" and u = utils0 and prev = ?prev,
      OF h1 h2 h3 c40]
  have a: "addTransaction superAccept utils0 txUnstake block0 = Inr (True, ?prev)"
    by (simp add: addTransaction_def superAccept_def txUnstake_def unstakeGold_def
        UNSTAKE_DELAY_def block0_def)
  have b: "map_of (unstakingEvents (StakeBlock (block0\<lparr> chainLength := 6 \<rparr>) (Some ?prev)))
             (HeightKey 40) = Some [(''A'', 50)]"
    using early by simp
  have c: "stakeBalances (StakeBlock (block0\<lparr> chainLength := 6 \<rparr>) (Some ?prev)) =
             [(''A'', Fin 100), (''B'', Fin 200)]"
    using early by (simp add: block0_def)
  have d: "map_of (unstakingEvents (StakeBlock (block0\<lparr> chainLength := 40 \<rparr>) (Some ?prev)))
             (HeightKey 40) = None"
    using due by simp
  have e: "map_of (stakeBalances (StakeBlock (block0\<lparr> chainLength := 40 \<rparr>) (Some ?prev))) ''A'' =
             Some (Fin 50)"
    using due by (simp add: block0_def released_def)
  from a b c d e show ?thesis by blast
qed

text \<open>
  Claim C8 (the code differs). \<open>block2\<close> is at height 40 and holds a matured
  unstaking event for the address \<open>C\<close>, which has no entry in \<open>stakeBalances\<close>. The
  event is not skipped: \<open>stakeBalances.get\<close> yields \<open>undefined\<close>, and
  \<open>undefined - 5\<close>, which is \<open>NaN\<close>, is stored for \<open>C\<close>. The total stake of the
  block is \<open>NaN\<close> from then on.
\<close>

theorem handleUnstakingEvents_unknown_address:
  "map_of (stakeBalances block2) ''C'' = None
   \<and> stakeBalances (handleUnstakingEvents block2) = [(''A'', Fin 7), (''B'', Fin 3), (''C'', NaN)]
   \<and> getTotalStake (handleUnstakingEvents block2) = NaN"
  by (simp add: handleUnstakingEvents_def block2_def getTotalStake_def jssub_def)

section \<open>Slashing\<close>

lemma punishCheater_example: "punishCheater utils0 block1 voteX voteY = seize block1 ''C''"
  by (simp add: punishCheater_def utils0_def voteX_def voteY_def Vote_def vote_id_def
      hasValidSignature_def)

lemma seize_example:
  "seize block1 ''C'' =
     \<lparr> chainLength = 5,
       balances = [(''A'', Fin 1062), (''B'', Fin 1027), (''C'', Fin 910)],
       stakeBalances = [(''A'', Fin 7), (''B'', Fin 3)],
       unstakingEvents = [(HeightKey 40, [(''C'', 5)])],
       accumPower = [(''A'', Fin 7), (''B'', Fin 3)] \<rparr>"
  by code_simp

text \<open>
  Claim C3 (the code differs). \<open>voteX\<close> and \<open>voteY\<close> are evidence against \<open>C\<close>:
  different ids, same author, same height and round, valid signatures.
  \<open>punishCheater\<close> removes \<open>C\<close> from \<open>stakeBalances\<close> and from \<open>accumPower\<close> and
  lowers its balance by its stake of 90, but the unstaking event of \<open>C\<close> that is
  pending for height 40 stays: \<open>unstakingEvents.delete(cheaterAddr)\<close> looks for a key
  equal to the address, and the keys of that map are heights.
\<close>

theorem punishCheater_keeps_unstaking_events:
  "vote_id utils0 (Vote voteX) \<noteq> vote_id utils0 (Vote voteY)
   \<and> hasValidSignature utils0 (Vote voteX) \<and> hasValidSignature utils0 (Vote voteY)
   \<and> map_of (stakeBalances (punishCheater utils0 block1 voteX voteY)) ''C'' = None
   \<and> map_of (accumPower (punishCheater utils0 block1 voteX voteY)) ''C'' = None
   \<and> balanceOf block1 ''C'' = Fin 1000
   \<and> amountGoldStaked block1 ''C'' = Fin 90
   \<and> balanceOf (punishCheater utils0 block1 voteX voteY) ''C'' = Fin 910
   \<and> unstakingEvents (punishCheater utils0 block1 voteX voteY) = [(HeightKey 40, [(''C'', 5)])]"
  by (simp add: punishCheater_example seize_example balanceOf_def amountGoldStaked_def)
     (simp add: block1_def utils0_def voteX_def voteY_def Vote_def vote_id_def
        hasValidSignature_def)

text \<open>
  Claim C4 (the code differs). In \<open>block1\<close> the cheater \<open>C\<close> has staked 90, and the
  validators that remain have staked 7 and 3, in total 10. The share of \<open>A\<close> is
  \<open>Math.floor(90 * (7 / 10))\<close>: the quotient is rounded to a double below
  \<open>0.7\<close>, the product is a double below 63, and the balance of \<open>A\<close> grows by 62,
  which is not \<open>floor(90 * 7 / 10) = 63\<close>.
\<close>

theorem punishCheater_share_rounded:
  "amountGoldStaked block1 ''C'' = Fin 90
   \<and> stakeBalances (punishCheater utils0 block1 voteX voteY) = [(''A'', Fin 7), (''B'', Fin 3)]
   \<and> getTotalStake (punishCheater utils0 block1 voteX voteY) = Fin 10
   \<and> balanceOf block1 ''A'' = Fin 1000
   \<and> balanceOf (punishCheater utils0 block1 voteX voteY) ''A'' = Fin (1000 + 62)
   \<and> jsfloor (jsmul (Fin 90) (jsdiv (Fin 7) (Fin 10))) = Fin 62
   \<and> (90 * 7) div 10 = (63::int)"
proof -
  have "jsfloor (jsmul (Fin 90) (jsdiv (Fin 7) (Fin 10))) = Fin 62"
    by code_simp
  then show ?thesis
    by (simp add: punishCheater_example seize_example balanceOf_def amountGoldStaked_def
        getTotalStake_def)
       (simp add: block1_def)
qed

section \<open>The ballot box\<close>



lemma fresherThan_neither:
  "\<not> fresherThan a b \<Longrightarrow> \<not> fresherThan b a \<Longrightarrow> v_height a = v_height b \<and> v_round a = v_round b"
  by (auto simp: fresherThan_def split: if_splits)





section \<open>Posting an unstaking transaction\<close>

lemma post_fields:
  "fst (post u this tx0 toPool) = tx_sign u (keyPair_private this) tx0"
  "nonce (snd (post u this tx0 toPool)) = nonce this + 1"
  "broadcasts (snd (post u this tx0 toPool)) = broadcasts this @ [fst (post u this tx0 toPool)]"
  "transactions (snd (post u this tx0 toPool)) =
     (if toPool then transactions this @ [fst (post u this tx0 toPool)] else transactions this)"
  "map_of (pendingOutgoingTransactions (snd (post u this tx0 toPool)))
     (tx_id u (fst (post u this tx0 toPool))) = Some (fst (post u this tx0 toPool))"
  by (simp_all add: post_def Let_def update_conv')

lemma tx_sign_fields:
  "tx_data (tx_sign u k tx) = tx_data tx" "tx_fee (tx_sign u k tx) = tx_fee tx"
  "tx_from (tx_sign u k tx) = tx_from tx" "tx_nonce (tx_sign u k tx) = tx_nonce tx"
  "tx_id u (tx_sign u k tx) = tx_id u tx"
  "tx_sig (tx_sign u k tx) = Some (sign u k (tx_id u tx))"
  by (simp_all add: tx_sign_def tx_id_def)

text \<open>
  Claim C10. \<open>postUnstakingTransaction\<close> throws exactly when the fee exceeds
  \<open>availableGold\<close>. Otherwise, whatever \<open>amountToUnstake\<close> is, the transaction is
  built with that amount, signed, stored as pending and broadcast, and the nonce is
  incremented. \<open>postStakingTransaction\<close>, by contrast, throws when the amount plus the
  fee exceeds \<open>availableGold\<close>.
\<close>

theorem postUnstakingTransaction_checks_fee_only:
  "(jsgt (Fin fee) (availableGold this) \<longrightarrow>
      postUnstakingTransaction u this amountToUnstake fee = Inl (Requested fee (availableGold this)))
   \<and> (\<not> jsgt (Fin fee) (availableGold this) \<longrightarrow>
        (\<exists>tx this'. postUnstakingTransaction u this amountToUnstake fee = Inr (tx, this')
           \<and> tx_data tx = Some (UNSTAKE amountToUnstake) \<and> tx_fee tx = fee
           \<and> tx_from tx = address this \<and> tx_nonce tx = nonce this
           \<and> tx_sig tx = Some (sign u (keyPair_private this) (tx_id u tx))
           \<and> map_of (pendingOutgoingTransactions this') (tx_id u tx) = Some tx
           \<and> nonce this' = nonce this + 1
           \<and> broadcasts this' = broadcasts this @ [tx]
           \<and> transactions this' =
               (if hasAddTransaction this then transactions this @ [tx] else transactions this)))
   \<and> (jsgt (Fin (stakeAmount + fee)) (availableGold this) \<longrightarrow>
        postStakingTransaction u this stakeAmount fee =
          Inl (Requested (stakeAmount + fee) (availableGold this)))"
proof -
  let ?tx0 = "\<lparr> tx_from = address this, tx_nonce = nonce this,
                 tx_pubKey = keyPair_public this, tx_outputs = [], tx_fee = fee,
                 tx_data = Some (UNSTAKE amountToUnstake), tx_sig = None \<rparr>"
  let ?r = "post u this ?tx0 (hasAddTransaction this)"
  have ok: "postUnstakingTransaction u this amountToUnstake fee = Inr (fst ?r, snd ?r)"
    if "\<not> jsgt (Fin fee) (availableGold this)"
    using that by (simp add: postUnstakingTransaction_def)
  have fields: "tx_data (fst ?r) = Some (UNSTAKE amountToUnstake)" "tx_fee (fst ?r) = fee"
    "tx_from (fst ?r) = address this" "tx_nonce (fst ?r) = nonce this"
    "tx_sig (fst ?r) = Some (sign u (keyPair_private this) (tx_id u (fst ?r)))"
    by (simp_all add: post_fields(1) tx_sign_fields)
  have A: "jsgt (Fin fee) (availableGold this) \<longrightarrow>
      postUnstakingTransaction u this amountToUnstake fee = Inl (Requested fee (availableGold this))"
    by (simp add: postUnstakingTransaction_def)
  have B: "\<exists>tx this'. postUnstakingTransaction u this amountToUnstake fee = Inr (tx, this')
           \<and> tx_data tx = Some (UNSTAKE amountToUnstake) \<and> tx_fee tx = fee
           \<and> tx_from tx = address this \<and> tx_nonce tx = nonce this
           \<and> tx_sig tx = Some (sign u (keyPair_private this) (tx_id u tx))
           \<and> map_of (pendingOutgoingTransactions this') (tx_id u tx) = Some tx
           \<and> nonce this' = nonce this + 1
           \<and> broadcasts this' = broadcasts this @ [tx]
           \<and> transactions this' =
               (if hasAddTransaction this then transactions this @ [tx] else transactions this)"
    if h: "\<not> jsgt (Fin fee) (availableGold this)"
    by (intro exI[of _ "fst ?r"] exI[of _ "snd ?r"])
       (simp add: ok[OF h] fields post_fields(2-5))
  have C: "jsgt (Fin (stakeAmount + fee)) (availableGold this) \<longrightarrow>
        postStakingTransaction u this stakeAmount fee =
          Inl (Requested (stakeAmount + fee) (availableGold this))"
    by (simp add: postStakingTransaction_def Let_def)
  from A B C show ?thesis by blast
qed

theorem postUnstakingTransaction_checks_fee_only_witness:
  "availableGold validator0 = Fin 900
   \<and> (\<exists>tx this'. postUnstakingTransaction utils0 validator0 1000000000 1 = Inr (tx, this')
         \<and> tx_data tx = Some (UNSTAKE 1000000000) \<and> nonce this' = 1 \<and> broadcasts this' = [tx])
   \<and> postUnstakingTransaction utils0 validator0 1000000000 901 = Inl (Requested 901 (Fin 900))
   \<and> postStakingTransaction utils0 validator0 1000000000 1 = Inl (Requested 1000000001 (Fin 900))"
proof -
  have av: "availableGold validator0 = Fin 900"
    by (simp add: availableGold_def validator0_def block0_def amountGoldStaked_def jssub_def)
  note c = postUnstakingTransaction_checks_fee_only[of _ validator0 utils0 1000000000 1000000000]
  have a: "\<exists>tx this'. postUnstakingTransaction utils0 validator0 1000000000 1 = Inr (tx, this')
         \<and> tx_data tx = Some (UNSTAKE 1000000000) \<and> nonce this' = 1 \<and> broadcasts this' = [tx]"
    using c[of 1] av by (auto simp: validator0_def)
  have b: "postUnstakingTransaction utils0 validator0 1000000000 901 = Inl (Requested 901 (Fin 900))"
    using c[of 901] av by simp
  have d: "postStakingTransaction utils0 validator0 1000000000 1 = Inl (Requested 1000000001 (Fin 900))"
    using c[of 1] av by simp
  from av a b d show ?thesis by blast
qed


section \<open>Rounding to a double\<close>

lemma roundHalfEven_ge_floor: "\<lfloor>q\<rfloor> \<le> roundHalfEven q"
  by (simp add: roundHalfEven_def Let_def)

lemma two_powi_nonneg: "0 \<le> e \<Longrightarrow> (2::rat) powi e = 2 ^ nat e"
  by (simp add: power_int_def)

lemma ilog2_lower:
  assumes "0 < x"
  shows "2 powi (ilog2 x) \<le> x"
proof -
  obtain a b where q: "quotient_of x = (a, b)" by (cases "quotient_of x")
  have b: "0 < b" using q by (rule quotient_of_denom_pos)
  have x: "x = of_int a / of_int b" using q by (rule quotient_of_div)
  have a: "0 < a" using assms b by (simp add: x zero_less_divide_iff)
  let ?d = "bitlen a - bitlen b"
  have e: "ilog2 x = (if x < 2 powi ?d then ?d - 1 else ?d)"
    by (simp add: ilog2_def q)
  have la: "1 \<le> bitlen a" and lb: "1 \<le> bitlen b"
    using a b bitlen_eq_zero_iff[of a] bitlen_eq_zero_iff[of b] bitlen_nonneg[of a] bitlen_nonneg[of b]
    by linarith+
  have "2 ^ nat (bitlen a - 1) \<le> a" using bitlen_bounds[OF a] by simp
  then have "(of_int (2 ^ nat (bitlen a - 1)) :: rat) \<le> of_int a"
    by (simp only: of_int_le_iff)
  then have A: "(2::rat) powi (bitlen a - 1) \<le> of_int a"
    using la by (simp add: two_powi_nonneg)
  have "b < 2 ^ nat (bitlen b)" using bitlen_bounds[OF b] by simp
  then have "(of_int b :: rat) < of_int (2 ^ nat (bitlen b))"
    by (simp only: of_int_less_iff)
  then have B: "(of_int b :: rat) \<le> 2 powi (bitlen b)"
    using lb by (simp add: two_powi_nonneg)
  have pos: "(0::rat) < of_int b" using b by simp
  have "(2::rat) powi (?d - 1) = 2 powi (bitlen a - 1) / 2 powi (bitlen b)"
    using power_int_diff[of "2::rat" "bitlen a - 1" "bitlen b"] by (simp add: algebra_simps)
  also have "\<dots> \<le> of_int a / 2 powi (bitlen b)"
    using A by (simp add: divide_right_mono)
  also have "\<dots> \<le> of_int a / of_int b"
    using B pos a by (simp add: frac_le)
  finally have "(2::rat) powi (?d - 1) \<le> x" by (simp add: x)
  then show ?thesis by (simp add: e)
qed

lemma ilog2_less:
  assumes x: "0 < x" and lt: "x < 2 powi n" and n: "0 \<le> n"
  shows "ilog2 x < n"
proof -
  have "(2::rat) powi (ilog2 x) < 2 powi n"
    using ilog2_lower[OF x] lt by (rule le_less_trans)
  then show ?thesis
    using n by (intro power_int_le_imp_less_exp[of "2::rat"]) simp_all
qed

text \<open>Below \<open>2^53\<close> the unit in the last place is \<open>1 / 2^k\<close>: every integer is a double.\<close>

lemma ulp_bounds:
  assumes e: "e \<le> 52"
  shows "0 < (2::rat) powi (e - 52)"
    and "1 / (2::rat) powi (e - 52) = of_int (2 ^ nat (52 - e))"
proof -
  show "0 < (2::rat) powi (e - 52)" by (simp add: zero_less_power_int)
  have "(2::rat) powi (52 - e) = inverse (2 powi (e - 52))"
    using power_int_minus[of "2::rat" "e - 52"] by simp
  moreover have "(2::rat) powi (52 - e) = 2 ^ nat (52 - e)"
    using e by (intro two_powi_nonneg) simp
  ultimately show "1 / (2::rat) powi (e - 52) = of_int (2 ^ nat (52 - e))"
    by (simp add: divide_inverse)
qed

text \<open>Rounding a positive number below \<open>2^53\<close> does not cross an integer.\<close>

lemma fl_ge_int:
  assumes x: "0 < x" and lt: "x < 2 powi 53" and k: "of_int k \<le> x"
  shows "of_int k \<le> fl x"
proof -
  define e where "e = ilog2 x"
  define u where "u = (2::rat) powi (e - 52)"
  have "e < 53" unfolding e_def using x lt by (rule ilog2_less) simp
  then have e: "e \<le> 52" by simp
  note ub = ulp_bounds[OF e, folded u_def]
  from ub(1) have nz: "u \<noteq> 0" by simp
  have fl: "fl x = of_int (roundHalfEven (x / u)) * u"
    using x by (simp add: fl_def Let_def e_def u_def)
  let ?m = "k * 2 ^ nat (52 - e)"
  have "of_int k / u = of_int k * (1 / u)" by simp
  also have "\<dots> = of_int ?m" by (simp only: ub(2) of_int_mult)
  finally have ku: "of_int k / u = of_int ?m" .
  have "of_int k / u \<le> x / u" using k ub(1) by (simp add: divide_right_mono)
  then have "of_int ?m \<le> x / u" by (simp only: ku)
  then have "?m \<le> \<lfloor>x / u\<rfloor>" by (simp only: le_floor_iff)
  also have "\<dots> \<le> roundHalfEven (x / u)" by (rule roundHalfEven_ge_floor)
  finally have "rat_of_int ?m \<le> of_int (roundHalfEven (x / u))" by (simp only: of_int_le_iff)
  then have "of_int ?m * u \<le> of_int (roundHalfEven (x / u)) * u"
    using ub(1) by (intro mult_right_mono) simp_all
  moreover have "of_int k = of_int ?m * u"
    using ku nz by (metis nonzero_divide_eq_eq)
  ultimately show ?thesis by (simp only: fl)
qed

lemma fl_nonneg:
  assumes "0 \<le> x"
  shows "0 \<le> fl x"
proof (cases "x = 0")
  case True
  then show ?thesis by (simp add: fl_def)
next
  case False
  define u where "u = (2::rat) powi (ilog2 \<bar>x\<bar> - 52)"
  have u: "0 < u" unfolding u_def by (simp add: zero_less_power_int)
  have fl: "fl x = of_int (roundHalfEven (x / u)) * u"
    using False by (simp add: fl_def Let_def u_def)
  have "0 \<le> x / u" using assms u by simp
  then have "0 \<le> \<lfloor>x / u\<rfloor>" by simp
  with roundHalfEven_ge_floor[of "x / u"] have "0 \<le> roundHalfEven (x / u)" by linarith
  then show ?thesis using u by (simp add: fl)
qed

text \<open>
  A count above the double \<open>2 * T / 3\<close> is above \<open>floor(2 * T / 3)\<close>, for a total \<open>T\<close>
  below \<open>2^53\<close>.
\<close>

lemma votesNeeded_floor:
  assumes T0: "0 \<le> T" and T1: "T < 2 ^ 53"
    and gt: "fl (of_int (2 * T) / of_int 3) < rat_of_int n"
  shows "(2 * T) div 3 < n"
proof (cases "T = 0")
  case True
  with gt show ?thesis by (simp add: fl_def)
next
  case False
  let ?x = "rat_of_int (2 * T) / of_int 3"
  let ?k = "(2 * T) div 3"
  have x: "0 < ?x" using False T0 by simp
  have "rat_of_int T < of_int (2 ^ 53)" using T1 by (simp only: of_int_less_iff)
  then have lt: "?x < 2 powi 53" by (simp add: power_int_def)
  have "rat_of_int \<lfloor>?x\<rfloor> \<le> ?x" by (rule of_int_floor_le)
  moreover have "\<lfloor>?x\<rfloor> = ?k" by (simp only: floor_divide_of_int_eq)
  ultimately have "rat_of_int ?k \<le> ?x" by (simp only:)
  from fl_ge_int[OF x lt this] gt have "rat_of_int ?k < rat_of_int n" by linarith
  then show ?thesis by (simp only: of_int_less_iff)
qed

section \<open>Tallying votes\<close>

lemma countVotes_fold:
  "countVotes stale this ballotBox =
     snd (fold (countStep stale this (jsdiv (jstimes 2 (getTotalStake (currentBlock this))) (Fin 3)))
               ballotBox ([], None))"
proof -
  have "(\<lambda>(voterAddr, vote) (candidateBlocks, winningBlockID).
                      let stake = amountGoldStaked (currentBlock this) voterAddr
                      in if stale vote (height this) (roundNumber this)
                         then (candidateBlocks, winningBlockID)
                         else let blockID = v_blockID vote;
                                  currentVotes = jsadd (orZero (map_of candidateBlocks blockID)) stake;
                                  candidateBlocks' = AList.update blockID currentVotes candidateBlocks
                              in if jsgt (toDouble currentVotes) votesNeeded
                                 then (candidateBlocks',
                                       Some (if blockID = NIL then NIL else v_blockID vote))
                                 else (candidateBlocks', winningBlockID))
        = countStep stale this votesNeeded" for votesNeeded
    by (auto simp: fun_eq_iff Let_def)
  then show ?thesis
    by (simp add: countVotes_def Let_def)
qed

lemma stakeWeights_finite: "stakeWeights m \<Longrightarrow> finiteLedger m"
  unfolding stakeWeights_def finiteLedger_def
  by (induction m) (auto split: jsnum.splits)

lemma stakeWeights_map_of:
  "stakeWeights m \<Longrightarrow> map_of m a = Some v \<Longrightarrow> \<exists>n\<ge>0. v = Fin n"
  unfolding stakeWeights_def
  by (induction m) (auto split: jsnum.splits if_splits)

lemma amountGoldStaked_stakeOf:
  assumes "stakeWeights (stakeBalances b)"
  shows "amountGoldStaked b a = Fin (stakeOf b a) \<and> 0 \<le> stakeOf b a"
proof (cases "map_of (stakeBalances b) a")
  case None
  then show ?thesis by (simp add: amountGoldStaked_def stakeOf_def)
next
  case (Some v)
  from stakeWeights_map_of[OF assms Some] obtain n where "0 \<le> n" "v = Fin n" by auto
  with Some show ?thesis by (simp add: amountGoldStaked_def stakeOf_def)
qed

lemma stakeWeights_total:
  assumes w: "stakeWeights (stakeBalances b)"
  shows "getTotalStake b = Fin (ledgerSum (stakeBalances b))"
    and "0 \<le> ledgerSum (stakeBalances b)"
proof -
  show "getTotalStake b = Fin (ledgerSum (stakeBalances b))"
    using w by (simp add: getTotalStake_finite stakeWeights_finite)
  show "0 \<le> ledgerSum (stakeBalances b)"
    unfolding ledgerSum_def
  proof (rule sum_list_nonneg)
    fix x assume "x \<in> set (map (\<lambda>(a, v). intval v) (stakeBalances b))"
    then obtain a v where av: "(a, v) \<in> set (stakeBalances b)" and x: "x = intval v"
      by auto
    from w av have "case v of Fin n \<Rightarrow> 0 \<le> n | _ \<Rightarrow> False"
      by (auto simp: stakeWeights_def list_all_iff)
    then show "0 \<le> x" by (cases v) (simp_all add: x)
  qed
qed

lemma tally_snoc:
  "tally stale this (xs @ [(a, v)]) bid =
     tally stale this xs bid +
       (if \<not> stale v (height this) (roundNumber this) \<and> v_blockID v = bid
        then stakeOf (currentBlock this) a else 0)"
  by (simp add: tally_def)

lemma tally_Nil: "tally stale this [] bid = 0"
  by (simp add: tally_def)

lemma tally_mono:
  assumes "stakeWeights (stakeBalances (currentBlock this))"
  shows "tally stale this xs bid \<le> tally stale this (xs @ [x]) bid"
proof -
  obtain a v where x: "x = (a, v)" by (cases x)
  show ?thesis
    using amountGoldStaked_stakeOf[OF assms, of a] by (simp add: x tally_snoc)
qed

text \<open>The comparison of \<open>countVotes\<close>, for stakes that are non-negative integers.\<close>

lemma exceedsVotesNeeded_eq:
  assumes w: "stakeWeights (stakeBalances (currentBlock this))"
  shows "exceedsVotesNeeded this n =
           (fl (of_int (2 * ledgerSum (stakeBalances (currentBlock this))) / of_int 3) < rat_of_int n)"
  by (simp add: exceedsVotesNeeded_def stakeWeights_total(1)[OF w])

lemma exceedsVotesNeeded_mono:
  assumes w: "stakeWeights (stakeBalances (currentBlock this))"
    and le: "n \<le> m" and n: "exceedsVotesNeeded this n"
  shows "exceedsVotesNeeded this m"
proof -
  from le have "rat_of_int n \<le> rat_of_int m" by (simp only: of_int_le_iff)
  with n show ?thesis
    unfolding exceedsVotesNeeded_eq[OF w] by (rule less_le_trans)
qed

lemma exceedsVotesNeeded_zero:
  assumes w: "stakeWeights (stakeBalances (currentBlock this))"
  shows "\<not> exceedsVotesNeeded this 0"
proof -
  let ?T = "ledgerSum (stakeBalances (currentBlock this))"
  have "0 \<le> rat_of_int (2 * ?T) / of_int 3"
    using stakeWeights_total(2)[OF w] by simp
  then have "0 \<le> fl (rat_of_int (2 * ?T) / of_int 3)" by (rule fl_nonneg)
  then show ?thesis
    unfolding exceedsVotesNeeded_eq[OF w] by simp
qed

lemma exceedsVotesNeeded_threshold:
  assumes w: "stakeWeights (stakeBalances (currentBlock this))"
    and lt: "ledgerSum (stakeBalances (currentBlock this)) < 2 ^ 53"
    and n: "exceedsVotesNeeded this n"
  shows "threshold this < n"
  unfolding threshold_def
  using stakeWeights_total(2)[OF w] lt n[unfolded exceedsVotesNeeded_eq[OF w]]
  by (rule votesNeeded_floor)

text \<open>The invariant of the loop of \<open>countVotes\<close>, by induction on the votes counted so far.\<close>

lemma countVotes_invariant:
  assumes w: "stakeWeights (stakeBalances (currentBlock this))"
  defines "vn \<equiv> jsdiv (jstimes 2 (getTotalStake (currentBlock this))) (Fin 3)"
  shows "(\<forall>bid. orZero (map_of (fst (fold (countStep stale this vn) xs ([], None))) bid) =
                 Fin (tally stale this xs bid))
       \<and> (\<forall>bid. snd (fold (countStep stale this vn) xs ([], None)) = Some bid \<longrightarrow>
                 exceedsVotesNeeded this (tally stale this xs bid))
       \<and> ((\<exists>bid. exceedsVotesNeeded this (tally stale this xs bid)) \<longrightarrow>
            snd (fold (countStep stale this vn) xs ([], None)) \<noteq> None)"
proof (induction xs rule: rev_induct)
  case Nil
  show ?case using exceedsVotesNeeded_zero[OF w] by (simp add: tally_Nil)
next
  case (snoc x xs)
  obtain a v where x: "x = (a, v)" by (cases x)
  obtain cand win where f: "fold (countStep stale this vn) xs ([], None) = (cand, win)"
    by (cases "fold (countStep stale this vn) xs ([], None)")
  from snoc.IH f have
    I1: "\<And>bid. orZero (map_of cand bid) = Fin (tally stale this xs bid)" and
    I2: "\<And>bid. win = Some bid \<Longrightarrow> exceedsVotesNeeded this (tally stale this xs bid)" and
    I3: "(\<exists>bid. exceedsVotesNeeded this (tally stale this xs bid)) \<Longrightarrow> win \<noteq> None"
    by auto
  have step: "fold (countStep stale this vn) (xs @ [x]) ([], None) =
              countStep stale this vn (a, v) (cand, win)"
    by (simp add: f x)
  show ?case
  proof (cases "stale v (height this) (roundNumber this)")
    case True
    then have "fold (countStep stale this vn) (xs @ [x]) ([], None) = (cand, win)"
      unfolding step by simp
    moreover have "tally stale this (xs @ [x]) bid = tally stale this xs bid" for bid
      using True by (simp add: x tally_snoc)
    ultimately show ?thesis using I1 I2 I3 by simp
  next
    case False
    let ?b = "v_blockID v"
    let ?s = "stakeOf (currentBlock this) a"
    let ?cv = "tally stale this xs ?b + ?s"
    have st: "amountGoldStaked (currentBlock this) a = Fin ?s" and s0: "0 \<le> ?s"
      using amountGoldStaked_stakeOf[OF w, of a] by simp_all
    have cv: "jsadd (orZero (map_of cand ?b)) (amountGoldStaked (currentBlock this) a) = Fin ?cv"
      by (simp add: I1 st)
    have gt: "jsgt (toDouble (Fin ?cv)) vn = exceedsVotesNeeded this ?cv"
      by (simp only: exceedsVotesNeeded_def vn_def)
    have tb: "tally stale this (xs @ [x]) ?b = ?cv"
      using False by (simp add: x tally_snoc)
    have to: "bid \<noteq> ?b \<Longrightarrow> tally stale this (xs @ [x]) bid = tally stale this xs bid" for bid
      by (auto simp: x tally_snoc)
    have res: "fold (countStep stale this vn) (xs @ [x]) ([], None) =
               (AList.update ?b (Fin ?cv) cand, if exceedsVotesNeeded this ?cv then Some ?b else win)"
      unfolding step by (simp only: prod.case False if_False cv gt) simp
    have J1: "orZero (map_of (AList.update ?b (Fin ?cv) cand) bid) =
              Fin (tally stale this (xs @ [x]) bid)" for bid
      using I1[of bid] tb to[of bid] by (simp add: update_conv')
    have J2: "exceedsVotesNeeded this (tally stale this (xs @ [x]) bid)"
      if "(if exceedsVotesNeeded this ?cv then Some ?b else win) = Some bid" for bid
    proof (cases "exceedsVotesNeeded this ?cv")
      case True
      with that have "bid = ?b" by simp
      with True tb show ?thesis by simp
    next
      case False
      with that have "win = Some bid" by simp
      from exceedsVotesNeeded_mono[OF w tally_mono[OF w, of stale xs bid x] I2[OF this]]
      show ?thesis .
    qed
    have J3: "(if exceedsVotesNeeded this ?cv then Some ?b else win) \<noteq> None"
      if ex: "\<exists>bid. exceedsVotesNeeded this (tally stale this (xs @ [x]) bid)"
    proof (cases "exceedsVotesNeeded this ?cv")
      case True
      then show ?thesis by simp
    next
      case False
      from ex obtain bid where bid: "exceedsVotesNeeded this (tally stale this (xs @ [x]) bid)" by auto
      with False tb have "bid \<noteq> ?b" by auto
      from to[OF this] bid have "exceedsVotesNeeded this (tally stale this xs bid)" by simp
      then have "win \<noteq> None" using I3 by auto
      with False show ?thesis by simp
    qed
    show ?thesis
      unfolding res using J1 J2 J3 by simp
  qed
qed

lemma countVotes_winner:
  assumes w: "stakeWeights (stakeBalances (currentBlock this))"
  shows "countVotes stale this ballotBox = Some bid \<Longrightarrow>
           exceedsVotesNeeded this (tally stale this ballotBox bid)"
    and "\<exists>bid. exceedsVotesNeeded this (tally stale this ballotBox bid) \<Longrightarrow>
           countVotes stale this ballotBox \<noteq> None"
  using countVotes_invariant[OF w, of stale ballotBox]
  by (auto simp: countVotes_fold)

lemma countVotes_sound:
  assumes w: "stakeWeights (stakeBalances (currentBlock this))"
    and lt: "ledgerSum (stakeBalances (currentBlock this)) < 2 ^ 53"
    and c: "countVotes stale this ballotBox = Some bid"
  shows "threshold this < tally stale this ballotBox bid"
  using w lt countVotes_winner(1)[OF w c] by (rule exceedsVotesNeeded_threshold)

lemma intval_orZero_Some: "intval (orZero (Some v)) = intval v"
  by (cases v) simp_all

lemma stakeOf_outside:
  assumes "a \<notin> fst ` set (stakeBalances b)"
  shows "stakeOf b a = 0"
proof -
  from assms have "map_of (stakeBalances b) a = None"
    by (simp add: map_of_eq_None_iff)
  then show ?thesis by (simp add: stakeOf_def amountGoldStaked_def)
qed

lemma ledgerSum_stakeOf:
  assumes d: "distinct (map fst (stakeBalances b))"
  shows "ledgerSum (stakeBalances b) = sum (stakeOf b) (fst ` set (stakeBalances b))"
proof -
  have eq: "(case x of (a, v) \<Rightarrow> intval v) = (stakeOf b \<circ> fst) x"
    if x: "x \<in> set (stakeBalances b)" for x
  proof -
    obtain a v where av: "x = (a, v)" by (cases x)
    from d x have "map_of (stakeBalances b) a = Some v" by (simp add: av)
    then show ?thesis
      by (simp add: av stakeOf_def amountGoldStaked_def intval_orZero_Some)
  qed
  have "map (\<lambda>(a, v). intval v) (stakeBalances b) = map (stakeOf b \<circ> fst) (stakeBalances b)"
    by (rule map_cong[OF refl]) (rule eq)
  then have "ledgerSum (stakeBalances b) = sum_list (map (stakeOf b) (map fst (stakeBalances b)))"
    by (simp only: ledgerSum_def map_map)
  also have "\<dots> = sum (stakeOf b) (set (map fst (stakeBalances b)))"
    using d by (rule sum_list_distinct_conv_sum_set)
  finally show ?thesis by simp
qed

lemma voters_sum_le:
  assumes dv: "distinct (map fst ballotBox)"
    and ds: "distinct (map fst (stakeBalances b))"
    and w: "stakeWeights (stakeBalances b)"
  shows "sum_list (map (\<lambda>(a, v). stakeOf b a) ballotBox) \<le> ledgerSum (stakeBalances b)"
proof -
  let ?V = "fst ` set ballotBox" and ?K = "fst ` set (stakeBalances b)"
  have nn: "0 \<le> stakeOf b a" for a
    using amountGoldStaked_stakeOf[OF w, of a] by simp
  have "map (\<lambda>(a, v). stakeOf b a) ballotBox = map (stakeOf b) (map fst ballotBox)"
    by (induction ballotBox) auto
  then have "sum_list (map (\<lambda>(a, v). stakeOf b a) ballotBox) = sum (stakeOf b) (set (map fst ballotBox))"
    using sum_list_distinct_conv_sum_set[OF dv, of "stakeOf b"] by (simp only:)
  also have "\<dots> = sum (stakeOf b) ?V" by simp
  also have "\<dots> = sum (stakeOf b) (?V \<inter> ?K)"
    by (rule sum.mono_neutral_right) (auto simp: stakeOf_outside)
  also have "\<dots> \<le> sum (stakeOf b) ?K"
    by (rule sum_mono2) (auto simp: nn)
  also have "\<dots> = ledgerSum (stakeBalances b)"
    using ledgerSum_stakeOf[OF ds] by simp
  finally show ?thesis .
qed

lemma filter_two_le:
  fixes f :: "'a \<Rightarrow> int"
  assumes "\<And>x. 0 \<le> f x" and "\<And>x. \<not> (P x \<and> Q x)"
  shows "sum_list (map f (filter P xs)) + sum_list (map f (filter Q xs)) \<le> sum_list (map f xs)"
proof (induction xs)
  case Nil
  then show ?case by simp
next
  case (Cons x xs)
  with assms(1)[of x] assms(2)[of x] show ?case by auto
qed

text \<open>
  Two block ids above the threshold would hold more than four thirds of the total
  stake between them.
\<close>

lemma unique_winner:
  assumes dv: "distinct (map fst ballotBox)"
    and ds: "distinct (map fst (stakeBalances (currentBlock this)))"
    and w: "stakeWeights (stakeBalances (currentBlock this))"
    and t1: "threshold this < tally stale this ballotBox b1"
    and t2: "threshold this < tally stale this ballotBox b2"
  shows "b1 = b2"
proof (rule ccontr)
  assume ne: "b1 \<noteq> b2"
  let ?T = "ledgerSum (stakeBalances (currentBlock this))"
  let ?f = "\<lambda>(a, v). stakeOf (currentBlock this) a"
  have nn: "0 \<le> ?f x" for x
    using amountGoldStaked_stakeOf[OF w, of "fst x"] by (simp add: case_prod_beta)
  have "tally stale this ballotBox b1 + tally stale this ballotBox b2 \<le> sum_list (map ?f ballotBox)"
    unfolding tally_def
    by (rule filter_two_le[OF nn]) (use ne in auto)
  also have "\<dots> \<le> ?T" by (rule voters_sum_le[OF dv ds w])
  finally have le: "tally stale this ballotBox b1 + tally stale this ballotBox b2 \<le> ?T" .
  have "0 \<le> tally stale this ballotBox b1" "0 \<le> tally stale this ballotBox b2"
    unfolding tally_def by (rule sum_list_nonneg, use nn in auto)+
  with le have "0 \<le> ?T" by linarith
  with t1 t2 le show False
    unfolding threshold_def by presburger
qed

lemma tally_set:
  assumes dv: "distinct (map fst ballotBox)"
  shows "tally stale this ballotBox bid =
           sum (\<lambda>(a, v). stakeOf (currentBlock this) a)
               {x \<in> set ballotBox. case x of (a, v) \<Rightarrow>
                   \<not> stale v (height this) (roundNumber this) \<and> v_blockID v = bid}"
proof -
  from dv have "distinct ballotBox" by (simp add: distinct_map)
  then have "distinct (filter (\<lambda>(a, v). \<not> stale v (height this) (roundNumber this) \<and> v_blockID v = bid) ballotBox)"
    by simp
  from sum_list_distinct_conv_sum_set[OF this] show ?thesis
    by (simp add: tally_def)
qed

lemma tally_order:
  assumes "distinct (map fst ballotBox)" and "distinct (map fst ballotBox')"
    and "set ballotBox = set ballotBox'"
  shows "tally stale this ballotBox bid = tally stale this ballotBox' bid"
  using assms by (simp add: tally_set)

text \<open>The winner is the block id whose final tally passes the comparison of the loop.\<close>

lemma countVotes_eq_Some_iff:
  assumes dv: "distinct (map fst ballotBox)"
    and ds: "distinct (map fst (stakeBalances (currentBlock this)))"
    and w: "stakeWeights (stakeBalances (currentBlock this))"
    and lt: "ledgerSum (stakeBalances (currentBlock this)) < 2 ^ 53"
  shows "(countVotes stale this ballotBox = Some bid) =
           exceedsVotesNeeded this (tally stale this ballotBox bid)"
proof
  assume "countVotes stale this ballotBox = Some bid"
  then show "exceedsVotesNeeded this (tally stale this ballotBox bid)"
    by (rule countVotes_winner(1)[OF w])
next
  assume t: "exceedsVotesNeeded this (tally stale this ballotBox bid)"
  then have "countVotes stale this ballotBox \<noteq> None"
    by (intro countVotes_winner(2)[OF w]) auto
  then obtain b' where b': "countVotes stale this ballotBox = Some b'" by auto
  have t1: "threshold this < tally stale this ballotBox b'"
    using w lt b' by (rule countVotes_sound)
  have t2: "threshold this < tally stale this ballotBox bid"
    using w lt t by (rule exceedsVotesNeeded_threshold)
  from unique_winner[OF dv ds w t1 t2] b' show "countVotes stale this ballotBox = Some bid" by simp
qed

lemma countVotes_order:
  assumes dv: "distinct (map fst ballotBox)" and dv': "distinct (map fst ballotBox')"
    and same: "set ballotBox = set ballotBox'"
    and ds: "distinct (map fst (stakeBalances (currentBlock this)))"
    and w: "stakeWeights (stakeBalances (currentBlock this))"
    and lt: "ledgerSum (stakeBalances (currentBlock this)) < 2 ^ 53"
  shows "countVotes stale this ballotBox = countVotes stale this ballotBox'"
proof -
  have eq: "(countVotes stale this ballotBox = Some bid) = (countVotes stale this ballotBox' = Some bid)" for bid
    by (simp only: countVotes_eq_Some_iff[OF dv ds w lt] countVotes_eq_Some_iff[OF dv' ds w lt]
        tally_order[OF dv dv' same])
  show ?thesis
  proof (cases "countVotes stale this ballotBox")
    case None
    have "countVotes stale this ballotBox' \<noteq> Some bid" for bid
      using eq[of bid] None by simp
    then have "countVotes stale this ballotBox' = None"
      by (cases "countVotes stale this ballotBox'") auto
    with None show ?thesis by simp
  next
    case (Some bid)
    with eq[of bid] show ?thesis by simp
  qed
qed

text \<open>
  Claim C1, as stated, for every block providing stake weights: it fails for a block
  with a negative stake. In \<open>blockNeg\<close> the stakes are \<open>A: 100\<close>, \<open>B: -95\<close>, \<open>C: 50\<close>
  (\<open>B\<close> unstaked 100 of a stake of 5), the total is 55 and the threshold is
  \<open>floor(110 / 3) = 36\<close>. With the votes of \<open>A\<close> and of \<open>B\<close> for \<open>X\<close>, counted in this
  order, \<open>countVotes\<close> returns \<open>X\<close> after the vote of \<open>A\<close> (100 exceeds 36.67) and
  keeps it, although the summed stake of the voters of \<open>X\<close> is 5, below the threshold.
\<close>

theorem countVotes_negative_stake_counterexample:
  "stakeBalances (currentBlock validatorNeg) =
     [(''A'', Fin 100), (''B'', Fin (- 95)), (''C'', Fin 50)]
   \<and> distinct (map fst [(''A'', voteA), (''B'', voteB)])
   \<and> getTotalStake (currentBlock validatorNeg) = Fin 55
   \<and> threshold validatorNeg = 36
   \<and> tally isStale validatorNeg [(''A'', voteA), (''B'', voteB)] ''X'' = 5
   \<and> countVotes isStale validatorNeg [(''A'', voteA), (''B'', voteB)] = Some ''X''"
  by code_simp

text \<open>
  Claim C1, for stakes that are non-negative integers. For a block whose stakes are
  non-negative integers with a total below \<open>2^53\<close> (the integers that a number of
  JavaScript holds exactly), \<open>totalStake\<close> is the sum of \<open>stakeBalances\<close>;
  \<open>countVotes\<close> returns a block id only if the summed stake of its voters that are
  not stale strictly exceeds \<open>floor(2 * totalStake / 3)\<close>; and it returns
  \<open>undefined\<close> if no block id exceeds that threshold.
\<close>

theorem countVotes_threshold:
  assumes "stakeWeights (stakeBalances (currentBlock this))"
    and "ledgerSum (stakeBalances (currentBlock this)) < 2 ^ 53"
  shows "getTotalStake (currentBlock this) = Fin (ledgerSum (stakeBalances (currentBlock this)))
    \<and> (\<forall>bid. countVotes stale this ballotBox = Some bid \<longrightarrow>
           threshold this < tally stale this ballotBox bid)
    \<and> ((\<forall>bid. \<not> threshold this < tally stale this ballotBox bid) \<longrightarrow>
           countVotes stale this ballotBox = None)"
proof -
  have total: "getTotalStake (currentBlock this) = Fin (ledgerSum (stakeBalances (currentBlock this)))"
    using assms(1) by (rule stakeWeights_total(1))
  have sound: "\<forall>bid. countVotes stale this ballotBox = Some bid \<longrightarrow>
           threshold this < tally stale this ballotBox bid"
    using countVotes_sound[OF assms] by blast
  have none: "(\<forall>bid. \<not> threshold this < tally stale this ballotBox bid) \<longrightarrow>
           countVotes stale this ballotBox = None"
  proof
    assume no: "\<forall>bid. \<not> threshold this < tally stale this ballotBox bid"
    show "countVotes stale this ballotBox = None"
    proof (cases "countVotes stale this ballotBox")
      case None
      then show ?thesis .
    next
      case (Some bid)
      from countVotes_sound[OF assms Some] no show ?thesis by blast
    qed
  qed
  from total sound none show ?thesis by blast
qed

lemma validator0_stakes:
  "stakeWeights (stakeBalances (currentBlock validator0))"
  "ledgerSum (stakeBalances (currentBlock validator0)) < 2 ^ 53"
  "distinct (map fst (stakeBalances (currentBlock validator0)))"
  "threshold validator0 = 200"
  by (simp_all add: validator0_def block0_def stakeWeights_def ledgerSum_def threshold_def)

lemma tally_examples:
  "tally isStale validator0 [(''A'', voteA), (''B'', voteB)] ''X'' = 300"
  "tally isStale validator0 [(''A'', voteA)] bid = (if bid = ''X'' then 100 else 0)"
  by (auto simp: tally_def isStale_def voteA_def voteB_def validator0_def block0_def stakeOf_def
      amountGoldStaked_def)

theorem countVotes_threshold_witness:
  "threshold validator0 = 200
   \<and> getTotalStake (currentBlock validator0) = Fin 300
   \<and> countVotes isStale validator0 [(''A'', voteA), (''B'', voteB)] = Some ''X''
   \<and> threshold validator0 < tally isStale validator0 [(''A'', voteA), (''B'', voteB)] ''X''
   \<and> countVotes isStale validator0 [(''A'', voteA)] = None"
proof -
  note both = countVotes_threshold[OF validator0_stakes(1,2), of isStale "[(''A'', voteA), (''B'', voteB)]"]
  note one = countVotes_threshold[OF validator0_stakes(1,2), of isStale "[(''A'', voteA)]"]
  have total: "getTotalStake (currentBlock validator0) = Fin 300"
    using both by (simp add: validator0_def block0_def ledgerSum_def)
  have win: "countVotes isStale validator0 [(''A'', voteA), (''B'', voteB)] = Some ''X''"
    by code_simp
  with both have above: "threshold validator0 < tally isStale validator0 [(''A'', voteA), (''B'', voteB)] ''X''"
    by blast
  have "\<forall>bid. \<not> threshold validator0 < tally isStale validator0 [(''A'', voteA)] bid"
    by (simp add: validator0_stakes(4) tally_examples(2))
  with one have none: "countVotes isStale validator0 [(''A'', voteA)] = None"
    by blast
  from validator0_stakes(4) total win above none show ?thesis by blast
qed

text \<open>
  Claim C9, as stated, for every stake map: it fails for a stake map with a negative
  stake. With the stakes \<open>A: 100\<close>, \<open>B: -95\<close>, \<open>C: 50\<close> of \<open>blockNeg\<close> and the votes of
  \<open>A\<close> and of \<open>B\<close> for \<open>X\<close>, the order \<open>A\<close>, \<open>B\<close> gives \<open>X\<close> (the running count 100
  exceeds 36.67 before the stake of \<open>B\<close> lowers it to 5) and the order \<open>B\<close>, \<open>A\<close> gives
  \<open>undefined\<close> (the running counts are -95 and 5).
\<close>

theorem countVotes_order_counterexample:
  "distinct (map fst [(''A'', voteA), (''B'', voteB)])
   \<and> distinct (map fst [(''B'', voteB), (''A'', voteA)])
   \<and> set [(''A'', voteA), (''B'', voteB)] = set [(''B'', voteB), (''A'', voteA)]
   \<and> distinct (map fst (stakeBalances (currentBlock validatorNeg)))
   \<and> countVotes isStale validatorNeg [(''A'', voteA), (''B'', voteB)] = Some ''X''
   \<and> countVotes isStale validatorNeg [(''B'', voteB), (''A'', voteA)] = None"
proof -
  have s: "set [(''A'', voteA), (''B'', voteB)] = set [(''B'', voteB), (''A'', voteA)]"
    by auto
  have d: "distinct (map fst [(''A'', voteA), (''B'', voteB)])"
    "distinct (map fst [(''B'', voteB), (''A'', voteA)])"
    by simp_all
  have k: "distinct (map fst (stakeBalances (currentBlock validatorNeg)))"
    by code_simp
  have c1: "countVotes isStale validatorNeg [(''A'', voteA), (''B'', voteB)] = Some ''X''"
    by code_simp
  have c2: "countVotes isStale validatorNeg [(''B'', voteB), (''A'', voteA)] = None"
    by code_simp
  from s d k c1 c2 show ?thesis by blast
qed

text \<open>
  Claim C9, for stakes that are non-negative integers. For a ballot box with one
  vote per voter and a block whose stakes are non-negative integers (one entry per
  address, total below \<open>2^53\<close>, the integers that a number of JavaScript holds
  exactly), every other order of the same stored votes gives the same result,
  because at most one block id has a tally that strictly exceeds the threshold, and
  a block id that \<open>countVotes\<close> returns has such a tally.
\<close>

theorem countVotes_order_independent:
  assumes "distinct (map fst ballotBox)" and "distinct (map fst ballotBox')"
    and "set ballotBox = set ballotBox'"
    and "distinct (map fst (stakeBalances (currentBlock this)))"
    and "stakeWeights (stakeBalances (currentBlock this))"
    and "ledgerSum (stakeBalances (currentBlock this)) < 2 ^ 53"
  shows "countVotes stale this ballotBox = countVotes stale this ballotBox'
    \<and> (\<forall>b1 b2. threshold this < tally stale this ballotBox b1 \<and>
                threshold this < tally stale this ballotBox b2 \<longrightarrow> b1 = b2)
    \<and> (\<forall>bid. countVotes stale this ballotBox = Some bid \<longrightarrow>
              threshold this < tally stale this ballotBox bid)"
proof -
  have order: "countVotes stale this ballotBox = countVotes stale this ballotBox'"
    using assms by (rule countVotes_order)
  have unique: "\<forall>b1 b2. threshold this < tally stale this ballotBox b1 \<and>
                threshold this < tally stale this ballotBox b2 \<longrightarrow> b1 = b2"
    using unique_winner[OF assms(1,4,5)] by blast
  have winner: "\<forall>bid. countVotes stale this ballotBox = Some bid \<longrightarrow>
              threshold this < tally stale this ballotBox bid"
    using countVotes_sound[OF assms(5,6)] by blast
  from order unique winner show ?thesis by blast
qed

theorem countVotes_order_independent_witness:
  "countVotes isStale validator0 [(''A'', voteA), (''B'', voteB)] =
     countVotes isStale validator0 [(''B'', voteB), (''A'', voteA)]
   \<and> countVotes isStale validator0 [(''B'', voteB), (''A'', voteA)] = Some ''X''"
proof -
  have d1: "distinct (map fst [(''A'', voteA), (''B'', voteB)])"
    and d2: "distinct (map fst [(''B'', voteB), (''A'', voteA)])"
    and s: "set [(''A'', voteA), (''B'', voteB)] = set [(''B'', voteB), (''A'', voteA)]"
    by auto
  note c = countVotes_order_independent[OF d1 d2 s validator0_stakes(3,1,2), of isStale]
  have "countVotes isStale validator0 [(''B'', voteB), (''A'', voteA)] = Some ''X''"
    by code_simp
  with c show ?thesis by blast
qed

end
